theory Spec2Isabelle
  imports Complex_Main "HOL-Library.Multiset"
begin

section \<open>Walking-tour route planner and preference scorer\<close>

text \<open>
  A shallow embedding of \<^verbatim>\<open>src/route_planner.py\<close> and \<^verbatim>\<open>src/poi_scorer.py\<close>.

  Numbers. Python floats are modelled by the real numbers: arithmetic is exact, and
  rounding error, overflow, underflow, infinities and NaN are outside the model.
  \<^verbatim>\<open>float('inf')\<close> and \<^verbatim>\<open>-float('inf')\<close> occur in the source only as the
  initial value of a running minimum or maximum that is still unset; they are the
  value \<open>None\<close> of an option here. The parameters annotated \<^verbatim>\<open>int\<close> in the source
  (\<^verbatim>\<open>duration_minutes\<close>, \<^verbatim>\<open>visit_time_per_poi\<close>, \<^verbatim>\<open>top_n\<close>) are integers.

  Dictionaries. A POI is a record of the keys the two modules read. A key that the
  source tests with \<^verbatim>\<open>in\<close> before reading it is an option field; \<^verbatim>\<open>id\<close> is read
  without a test and is mandatory in the data model, so it is a plain field.
\<close>

subsection \<open>Errors\<close>

datatype py_error = KeyError string | ImportError string | ValueError string

subsection \<open>Data model\<close>

type_synonym coord = "real \<times> real"

record geo_dict =
  lat :: "real option"
  lng :: "real option"

record poi =
  poi_id :: string
  poi_name :: string
  geo :: "geo_dict option"
  vibe_tags :: "string list option"
  facts :: "string list option"
  visual_cues :: "string list option"
  source_reliability :: "real option"

record user_profile_entry =
  interests :: "string list"
  description :: string

record weights =
  alpha :: real
  beta :: real
  delta :: real

record score_components =
  interest_match :: real
  popularity :: real
  distance_km :: real
  distance_penalty :: real

record scored_poi =
  scored_of :: poi
  score :: real
  components :: score_components

record route_stop =
  stop_poi :: poi
  distance_from_previous_km :: real
  stop_walking_time_minutes :: real

subsection \<open>Constants\<close>

definition WALKING_SPEED_KMH :: real where
  "WALKING_SPEED_KMH = 5"

definition DEFAULT_VISIT_TIME_MINUTES :: int where
  "DEFAULT_VISIT_TIME_MINUTES = 5"

definition EARTH_RADIUS_KM :: real where
  "EARTH_RADIUS_KM = 6371"

definition USER_PROFILES_items :: "(string \<times> user_profile_entry) list" where
  "USER_PROFILES_items =
    [(''history_lover'',
        \<lparr>interests = [''history'', ''medieval'', ''military'', ''political'', ''victorian''],
         description = ''Loves historical sites, dates, and significant events''\<rparr>),
     (''ghost_hunter'',
        \<lparr>interests = [''haunted'', ''mysterious'', ''ruins'', ''religious'', ''dramatic''],
         description = ''Fascinated by spooky stories, legends, and atmospheric locations''\<rparr>),
     (''architecture_fan'',
        \<lparr>interests = [''architecture'', ''georgian'', ''engineering'', ''folly'', ''medieval''],
         description = ''Appreciates building design, construction, and architectural styles''\<rparr>),
     (''nature_seeker'',
        \<lparr>interests = [''nature'', ''scenic'', ''picturesque'', ''peaceful'', ''romantic''],
         description = ''Enjoys natural beauty, viewpoints, and tranquil settings''\<rparr>),
     (''culture_enthusiast'',
        \<lparr>interests = [''culture'', ''arts'', ''educational'', ''local'', ''social''],
         description = ''Interested in arts, museums, local culture, and community''\<rparr>),
     (''casual_tourist'',
        \<lparr>interests = [''history'', ''architecture'', ''scenic'', ''culture'', ''picturesque''],
         description = ''Balanced mix of popular tourist attractions''\<rparr>)]"

definition USER_PROFILES :: "string \<rightharpoonup> user_profile_entry" where
  "USER_PROFILES = map_of USER_PROFILES_items"

definition DEFAULT_WEIGHTS :: weights where
  "DEFAULT_WEIGHTS = \<lparr>alpha = 6 / 10, beta = 3 / 10, delta = 1 / 10\<rparr>"

subsection \<open>Geo distance utility\<close>

text \<open>\<^verbatim>\<open>math.radians\<close>, \<^verbatim>\<open>math.sqrt\<close> and \<^verbatim>\<open>math.asin\<close>; the last two raise
  \<^verbatim>\<open>ValueError\<close> outside their domain.\<close>

definition radians :: "real \<Rightarrow> real" where
  "radians x = x * (pi / 180)"

definition math_sqrt :: "real \<Rightarrow> py_error + real" where
  "math_sqrt x = (if x < 0 then Inl (ValueError ''math domain error'') else Inr (sqrt x))"

definition math_asin :: "real \<Rightarrow> py_error + real" where
  "math_asin x =
     (if x < - 1 \<or> 1 < x then Inl (ValueError ''math domain error'') else Inr (arcsin x))"

text \<open>The local \<^verbatim>\<open>a\<close> of \<^verbatim>\<open>calculate_distance\<close> (the haversine of the central angle).\<close>

definition haversine_a :: "coord \<Rightarrow> coord \<Rightarrow> real" where
  "haversine_a coord1 coord2 =
     (case coord1 of (lat1, lng1) \<Rightarrow> case coord2 of (lat2, lng2) \<Rightarrow>
        let lat1_rad = radians lat1;
            lat2_rad = radians lat2;
            dlat = radians (lat2 - lat1);
            dlng = radians (lng2 - lng1)
        in (sin (dlat / 2))\<^sup>2 + cos lat1_rad * cos lat2_rad * (sin (dlng / 2))\<^sup>2)"

text \<open>\<^verbatim>\<open>calculate_distance\<close> as written, with the two library calls that can raise.\<close>

definition calculate_distance_raising :: "coord \<Rightarrow> coord \<Rightarrow> py_error + real" where
  "calculate_distance_raising coord1 coord2 =
     (case math_sqrt (haversine_a coord1 coord2) of
        Inl e \<Rightarrow> Inl e
      | Inr r \<Rightarrow>
          (case math_asin r of
             Inl e \<Rightarrow> Inl e
           | Inr s \<Rightarrow> Inr (EARTH_RADIUS_KM * (2 * s))))"

text \<open>The value it returns; \<open>calculate_distance_never_raises\<close> below shows that the
  two agree on every input, so that the planners can call the total function.\<close>

definition calculate_distance :: "coord \<Rightarrow> coord \<Rightarrow> real" where
  "calculate_distance coord1 coord2 =
     EARTH_RADIUS_KM * (2 * arcsin (sqrt (haversine_a coord1 coord2)))"

definition estimate_walking_time :: "real \<Rightarrow> real" where
  "estimate_walking_time dist_km =
     (let hours = dist_km / WALKING_SPEED_KMH in hours * 60)"

subsection \<open>Preference scorer\<close>

text \<open>\<^verbatim>\<open>str.lower\<close> on ASCII letters; other characters are left as they are.\<close>

definition lower_char :: "char \<Rightarrow> char" where
  "lower_char c =
     (let n = (of_char c :: nat) in if 65 \<le> n \<and> n \<le> 90 then char_of (n + 32) else c)"

definition lower :: "string \<Rightarrow> string" where
  "lower s = map lower_char s"

definition calculate_interest_match :: "poi \<Rightarrow> string list \<Rightarrow> real" where
  "calculate_interest_match p user_interests =
     (case vibe_tags p of
        None \<Rightarrow> 0
      | Some tags \<Rightarrow>
          if tags = [] then 0
          else
            let poi_tags = set (map lower tags);
                user_tags = set (map lower user_interests)
            in if poi_tags = {} \<or> user_tags = {} then 0
               else
                 let intersection = card (poi_tags \<inter> user_tags);
                     union = card (poi_tags \<union> user_tags)
                 in if union > 0 then real intersection / real union else 0)"

text \<open>\<^verbatim>\<open>'k' in poi and poi['k']\<close> for a list-valued key: present and not empty.\<close>

definition present_and_truthy :: "'a list option \<Rightarrow> bool" where
  "present_and_truthy v = (case v of None \<Rightarrow> False | Some xs \<Rightarrow> xs \<noteq> [])"

definition calculate_popularity_score :: "poi \<Rightarrow> real" where
  "calculate_popularity_score p =
     (let score0 = 5 / 10;
          score1 = (if present_and_truthy (facts p) then score0 + 3 / 10 else score0);
          score2 = (if present_and_truthy (visual_cues p) then score1 + 1 / 10 else score1);
          score3 = (case source_reliability p of
                      None \<Rightarrow> score2
                    | Some r \<Rightarrow> max score2 r)
      in min score3 1)"

definition calculate_distance_penalty :: "real \<Rightarrow> real \<Rightarrow> real" where
  "calculate_distance_penalty dist_km max_distance =
     (let normalized = min (dist_km / max_distance) 1 in normalized)"

text \<open>\<^verbatim>\<open>(poi['geo']['lat'], poi['geo']['lng'])\<close>, read with no test.\<close>

definition poi_coords :: "poi \<Rightarrow> py_error + coord" where
  "poi_coords p =
     (case geo p of
        None \<Rightarrow> Inl (KeyError ''geo'')
      | Some g \<Rightarrow>
          (case lat g of
             None \<Rightarrow> Inl (KeyError ''lat'')
           | Some la \<Rightarrow>
               (case lng g of
                  None \<Rightarrow> Inl (KeyError ''lng'')
                | Some lo \<Rightarrow> Inr (la, lo))))"

definition score_poi ::
  "poi \<Rightarrow> string list \<Rightarrow> coord \<Rightarrow> weights option \<Rightarrow> py_error + scored_poi" where
  "score_poi p user_interests current_position weights_arg =
     (let w = (case weights_arg of None \<Rightarrow> DEFAULT_WEIGHTS | Some w' \<Rightarrow> w') in
      case poi_coords p of
        Inl e \<Rightarrow> Inl e
      | Inr pc \<Rightarrow>
          let distance = calculate_distance current_position pc;
              im = calculate_interest_match p user_interests;
              pop = calculate_popularity_score p;
              pen = calculate_distance_penalty distance 2;
              sc = alpha w * im + beta w * pop - delta w * pen
          in Inr \<lparr>scored_of = p, score = sc,
                  components = \<lparr>interest_match = im, popularity = pop,
                                 distance_km = distance, distance_penalty = pen\<rparr>\<rparr>)"

text \<open>The interest list of a profile name, with the fall-back of both callers:
  \<^verbatim>\<open>USER_PROFILES[user_profile]['interests'] if user_profile in USER_PROFILES
  else USER_PROFILES['casual_tourist']['interests']\<close>.\<close>

definition profile_interests :: "string \<Rightarrow> py_error + string list" where
  "profile_interests user_profile =
     (case USER_PROFILES user_profile of
        Some entry \<Rightarrow> Inr (interests entry)
      | None \<Rightarrow>
          (case USER_PROFILES ''casual_tourist'' of
             Some entry \<Rightarrow> Inr (interests entry)
           | None \<Rightarrow> Inl (KeyError ''casual_tourist'')))"

text \<open>The scoring loop of \<^verbatim>\<open>rank_pois\<close>: a candidate with no \<^verbatim>\<open>geo\<close>, or whose
  \<^verbatim>\<open>geo\<close> has no \<^verbatim>\<open>lat\<close>, is skipped; every other candidate is scored, and the
  first error ends the loop.\<close>

definition rank_skips :: "poi \<Rightarrow> bool" where
  "rank_skips p = (case geo p of None \<Rightarrow> True | Some g \<Rightarrow> lat g = None)"

fun score_all ::
  "string list \<Rightarrow> coord \<Rightarrow> weights option \<Rightarrow> poi list \<Rightarrow> py_error + scored_poi list" where
  "score_all ints pos w [] = Inr []"
| "score_all ints pos w (p # ps) =
     (if rank_skips p then score_all ints pos w ps
      else
        case score_poi p ints pos w of
          Inl e \<Rightarrow> Inl e
        | Inr s \<Rightarrow>
            (case score_all ints pos w ps of
               Inl e \<Rightarrow> Inl e
             | Inr ss \<Rightarrow> Inr (s # ss)))"

text \<open>\<^verbatim>\<open>list.sort(key=lambda x: x['score'], reverse=True)\<close>: a stable sort into
  descending order of the key; elements with equal keys keep their order.\<close>

definition sort_by_score_reverse :: "scored_poi list \<Rightarrow> scored_poi list" where
  "sort_by_score_reverse xs = sort_key (\<lambda>x. - score x) xs"

text \<open>The slice \<^verbatim>\<open>xs[:n]\<close>; a negative \<^verbatim>\<open>n\<close> counts from the end.\<close>

definition slice_to :: "'a list \<Rightarrow> int \<Rightarrow> 'a list" where
  "slice_to xs n =
     (if 0 \<le> n then take (nat n) xs else take (nat (int (length xs) + n)) xs)"

definition rank_pois ::
  "poi list \<Rightarrow> string \<Rightarrow> coord \<Rightarrow> weights option \<Rightarrow> int option
     \<Rightarrow> py_error + scored_poi list" where
  "rank_pois candidate_pois user_profile current_position weights_arg top_n =
     (case profile_interests user_profile of
        Inl e \<Rightarrow> Inl e
      | Inr ints \<Rightarrow>
          (case score_all ints current_position weights_arg candidate_pois of
             Inl e \<Rightarrow> Inl e
           | Inr scored_pois \<Rightarrow>
               let sorted_pois = sort_by_score_reverse scored_pois
               in Inr (case top_n of
                         None \<Rightarrow> sorted_pois
                       | Some n \<Rightarrow> slice_to sorted_pois n)))"

subsection \<open>Route planner\<close>

text \<open>\<^verbatim>\<open>round(x, ndigits)\<close>: to the nearest multiple of \<open>10 ^ - ndigits\<close>, a tie
  to the even one.\<close>

definition round_half_even :: "real \<Rightarrow> int" where
  "round_half_even x =
     (let f = \<lfloor>x\<rfloor>; r = x - of_int f
      in if r < 1 / 2 then f else if 1 / 2 < r then f + 1 else if even f then f else f + 1)"

definition py_round :: "real \<Rightarrow> nat \<Rightarrow> real" where
  "py_round x ndigits = of_int (round_half_even (x * 10 ^ ndigits)) / 10 ^ ndigits"

text \<open>The variables of the selection loop.\<close>

record plan_state =
  st_route :: "route_stop list"
  st_visited_ids :: "string set"
  st_current_position :: coord
  st_time_used :: real
  st_total_distance :: real

record route_result =
  route :: "route_stop list"
  total_distance_km :: real
  total_time_minutes :: real
  walking_time_minutes :: real
  visit_time_minutes :: int
  pois_visited :: nat
  time_remaining :: real
  start_coords :: coord
  return_to_start :: bool
  return_distance_km :: real

text \<open>The test \<^verbatim>\<open>'geo' not in poi or 'lat' not in poi['geo'] or 'lng' not in
  poi['geo']\<close> of both planners, together with the pair
  \<^verbatim>\<open>(poi['geo']['lat'], poi['geo']['lng'])\<close> read when it passes: \<open>None\<close> when the
  candidate is skipped.\<close>

definition planner_coords :: "poi \<Rightarrow> coord option" where
  "planner_coords p =
     (case geo p of
        None \<Rightarrow> None
      | Some g \<Rightarrow>
          (case lat g of
             None \<Rightarrow> None
           | Some la \<Rightarrow>
               (case lng g of
                  None \<Rightarrow> None
                | Some lo \<Rightarrow> Some (la, lo))))"

text \<open>The inner \<^verbatim>\<open>for\<close> loop of \<^verbatim>\<open>plan_route\<close>. The running minimum is
  \<open>None\<close> while \<^verbatim>\<open>nearest_poi\<close> is \<^verbatim>\<open>None\<close> (and \<^verbatim>\<open>nearest_distance\<close>
  infinite); it carries the coordinate pair read from the candidate, which the loop
  body reads again from \<^verbatim>\<open>nearest_poi\<close>.\<close>

fun nearest_scan ::
  "string set \<Rightarrow> coord \<Rightarrow> poi list \<Rightarrow> (poi \<times> coord \<times> real) option
     \<Rightarrow> (poi \<times> coord \<times> real) option" where
  "nearest_scan visited cur [] nearest = nearest"
| "nearest_scan visited cur (p # ps) nearest =
     (if poi_id p \<in> visited then nearest_scan visited cur ps nearest
      else
        case planner_coords p of
          None \<Rightarrow> nearest_scan visited cur ps nearest
        | Some pc \<Rightarrow>
            let distance = calculate_distance cur pc
            in if (case nearest of
                     None \<Rightarrow> True
                   | Some (_, _, nearest_distance) \<Rightarrow> distance < nearest_distance)
               then nearest_scan visited cur ps (Some (p, pc, distance))
               else nearest_scan visited cur ps nearest)"

text \<open>One pass of the \<^verbatim>\<open>while True\<close> loop: \<open>None\<close> is \<^verbatim>\<open>break\<close>.\<close>

definition nn_step :: "poi list \<Rightarrow> int \<Rightarrow> int \<Rightarrow> plan_state \<Rightarrow> plan_state option" where
  "nn_step candidate_pois duration_minutes visit_time_per_poi st =
     (case nearest_scan (st_visited_ids st) (st_current_position st) candidate_pois None of
        None \<Rightarrow> None
      | Some (nearest_poi, pc, nearest_distance) \<Rightarrow>
          let walking_time = estimate_walking_time nearest_distance;
              total_time_needed = walking_time + of_int visit_time_per_poi
          in if st_time_used st + total_time_needed > of_int duration_minutes then None
             else Some
               \<lparr>st_route = st_route st @
                   [\<lparr>stop_poi = nearest_poi,
                     distance_from_previous_km = nearest_distance,
                     stop_walking_time_minutes = walking_time\<rparr>],
                st_visited_ids = insert (poi_id nearest_poi) (st_visited_ids st),
                st_current_position = pc,
                st_time_used = st_time_used st + total_time_needed,
                st_total_distance = st_total_distance st + nearest_distance\<rparr>)"

text \<open>The number of candidates whose id is not yet visited: it falls with every stop.\<close>

definition unvisited_count :: "poi list \<Rightarrow> string set \<Rightarrow> nat" where
  "unvisited_count candidate_pois visited =
     length (filter (\<lambda>p. poi_id p \<notin> visited) candidate_pois)"

lemma unvisited_count_insert:
  assumes "p \<in> set ps" "poi_id p \<notin> V"
  shows "unvisited_count ps (insert (poi_id p) V) < unvisited_count ps V"
proof -
  let ?xs = "filter (\<lambda>q. poi_id q \<notin> V) ps"
  have "filter (\<lambda>q. poi_id q \<notin> insert (poi_id p) V) ps
        = filter (\<lambda>q. poi_id q \<noteq> poi_id p) ?xs"
    by (simp add: conj_commute)
  moreover have "p \<in> set ?xs" using assms by simp
  then have "length (filter (\<lambda>q. poi_id q \<noteq> poi_id p) ?xs) < length ?xs"
    by (rule length_filter_less) simp
  ultimately show ?thesis by (simp add: unvisited_count_def)
qed

lemma nearest_scan_cases:
  "nearest_scan V cur ps nearest = nearest
   \<or> (\<exists>p pc. nearest_scan V cur ps nearest = Some (p, pc, calculate_distance cur pc)
        \<and> p \<in> set ps \<and> poi_id p \<notin> V \<and> planner_coords p = Some pc)"
proof (induction ps arbitrary: nearest)
  case Nil
  show ?case by simp
next
  case (Cons q qs)
  show ?case
  proof (cases "poi_id q \<in> V \<or> planner_coords q = None")
    case True
    then have "nearest_scan V cur (q # qs) nearest = nearest_scan V cur qs nearest"
      by auto
    with Cons.IH [of nearest] show ?thesis by auto
  next
    case False
    then obtain pc where pc: "planner_coords q = Some pc" and nv: "poi_id q \<notin> V"
      by auto
    show ?thesis
    proof (cases "case nearest of None \<Rightarrow> True
                  | Some (_, _, nd) \<Rightarrow> calculate_distance cur pc < nd")
      case True
      then have e: "nearest_scan V cur (q # qs) nearest
                    = nearest_scan V cur qs (Some (q, pc, calculate_distance cur pc))"
        using pc nv by (simp add: Let_def)
      from Cons.IH [of "Some (q, pc, calculate_distance cur pc)"]
      show ?thesis
      proof
        assume "nearest_scan V cur qs (Some (q, pc, calculate_distance cur pc))
                = Some (q, pc, calculate_distance cur pc)"
        then have "nearest_scan V cur (q # qs) nearest
                   = Some (q, pc, calculate_distance cur pc)"
          unfolding e .
        with pc nv show ?thesis by (intro disjI2 exI [of _ q] exI [of _ pc]) simp
      next
        assume "\<exists>p pc'. nearest_scan V cur qs (Some (q, pc, calculate_distance cur pc))
                    = Some (p, pc', calculate_distance cur pc')
                  \<and> p \<in> set qs \<and> poi_id p \<notin> V \<and> planner_coords p = Some pc'"
        then obtain p pc' where
          "nearest_scan V cur qs (Some (q, pc, calculate_distance cur pc))
             = Some (p, pc', calculate_distance cur pc')"
          "p \<in> set qs" "poi_id p \<notin> V" "planner_coords p = Some pc'"
          by blast
        then show ?thesis
          unfolding e by (intro disjI2 exI [of _ p] exI [of _ pc']) simp
      qed
    next
      case False
      then have "nearest_scan V cur (q # qs) nearest = nearest_scan V cur qs nearest"
        using pc nv by (simp add: Let_def)
      with Cons.IH [of nearest] show ?thesis by auto
    qed
  qed
qed

lemma nearest_scan_Some:
  assumes "nearest_scan V cur ps None = Some (p, pc, d)"
  shows "p \<in> set ps \<and> poi_id p \<notin> V \<and> planner_coords p = Some pc
         \<and> d = calculate_distance cur pc"
  using nearest_scan_cases [of V cur ps None] assms by auto

lemma nn_step_Some:
  assumes "nn_step cands dur vis st = Some st'"
  shows "\<exists>p pc d. nearest_scan (st_visited_ids st) (st_current_position st) cands None
                     = Some (p, pc, d)
           \<and> st_time_used st + (estimate_walking_time d + of_int vis) \<le> of_int dur
           \<and> st' = \<lparr>st_route = st_route st @
                       [\<lparr>stop_poi = p, distance_from_previous_km = d,
                         stop_walking_time_minutes = estimate_walking_time d\<rparr>],
                     st_visited_ids = insert (poi_id p) (st_visited_ids st),
                     st_current_position = pc,
                     st_time_used = st_time_used st + (estimate_walking_time d + of_int vis),
                     st_total_distance = st_total_distance st + d\<rparr>"
  using assms
  by (auto simp add: nn_step_def Let_def split: option.splits if_splits)

lemma nn_step_decreases:
  assumes "nn_step cands dur vis st = Some st'"
  shows "unvisited_count cands (st_visited_ids st')
         < unvisited_count cands (st_visited_ids st)"
proof -
  from nn_step_Some [OF assms] obtain p pc d where
    s: "nearest_scan (st_visited_ids st) (st_current_position st) cands None = Some (p, pc, d)"
    and v: "st_visited_ids st' = insert (poi_id p) (st_visited_ids st)"
    by auto
  from nearest_scan_Some [OF s] have "p \<in> set cands" "poi_id p \<notin> st_visited_ids st"
    by simp_all
  then show ?thesis unfolding v by (rule unvisited_count_insert)
qed

function nn_loop :: "poi list \<Rightarrow> int \<Rightarrow> int \<Rightarrow> plan_state \<Rightarrow> plan_state" where
  "nn_loop candidate_pois duration_minutes visit_time_per_poi st =
     (case nn_step candidate_pois duration_minutes visit_time_per_poi st of
        None \<Rightarrow> st
      | Some st' \<Rightarrow> nn_loop candidate_pois duration_minutes visit_time_per_poi st')"
  by pat_completeness auto
termination
  by (relation "measure (\<lambda>(cands, dur, vis, st). unvisited_count cands (st_visited_ids st))")
     (simp_all add: nn_step_decreases)

declare nn_loop.simps [simp del]


text \<open>The return leg (the block after the loop, the same in both planners): the
  values of \<^verbatim>\<open>return_distance\<close>, \<^verbatim>\<open>return_time\<close>, \<^verbatim>\<open>total_distance\<close> and
  \<^verbatim>\<open>time_used\<close> after it.\<close>

definition return_leg ::
  "coord \<Rightarrow> int \<Rightarrow> bool \<Rightarrow> 'a plan_state_scheme \<Rightarrow> real \<times> real \<times> real \<times> real" where
  "return_leg start duration_minutes return_requested st =
     (if return_requested \<and> length (st_route st) > 0 then
        let return_distance = calculate_distance (st_current_position st) start;
            return_time = estimate_walking_time return_distance
        in if st_time_used st + return_time \<le> of_int duration_minutes
           then (return_distance, return_time,
                 st_total_distance st + return_distance, st_time_used st + return_time)
           else (return_distance, return_time, st_total_distance st, st_time_used st)
      else (0, 0, st_total_distance st, st_time_used st))"

text \<open>The dictionary returned by \<^verbatim>\<open>plan_route\<close>, from the state the loop ends in.\<close>

definition build_result ::
  "coord \<Rightarrow> int \<Rightarrow> int \<Rightarrow> bool \<Rightarrow> 'a plan_state_scheme \<Rightarrow> route_result" where
  "build_result start duration_minutes visit_time_per_poi return_requested st =
     (case return_leg start duration_minutes return_requested st of
        (return_distance, return_time, total_distance, time_used) \<Rightarrow>
          let walking_time =
                sum_list (map stop_walking_time_minutes (st_route st)) + return_time;
              visit_time = int (length (st_route st)) * visit_time_per_poi
          in \<lparr>route = st_route st,
              total_distance_km = py_round total_distance 2,
              total_time_minutes = py_round time_used 1,
              walking_time_minutes = py_round walking_time 1,
              visit_time_minutes = visit_time,
              pois_visited = length (st_route st),
              time_remaining = of_int duration_minutes - time_used,
              start_coords = start,
              return_to_start = return_requested,
              return_distance_km =
                (if return_requested then py_round return_distance 2 else 0)\<rparr>)"

definition initial_state :: "coord \<Rightarrow> plan_state" where
  "initial_state start =
     \<lparr>st_route = [], st_visited_ids = {}, st_current_position = start,
      st_time_used = 0, st_total_distance = 0\<rparr>"

definition plan_route :: "coord \<Rightarrow> poi list \<Rightarrow> int \<Rightarrow> int \<Rightarrow> bool \<Rightarrow> route_result" where
  "plan_route start candidate_pois duration_minutes visit_time_per_poi return_requested =
     build_result start duration_minutes visit_time_per_poi return_requested
       (nn_loop candidate_pois duration_minutes visit_time_per_poi (initial_state start))"

subsection \<open>Preference-scored planner\<close>

text \<open>The outcome of \<^verbatim>\<open>import poi_scorer\<close> when \<^verbatim>\<open>route_planner\<close> is loaded:
  \<^verbatim>\<open>score_poi\<close> is bound to the scorer's function, or to \<^verbatim>\<open>None\<close> after an
  \<^verbatim>\<open>ImportError\<close>.\<close>

datatype scorer_import = Scorer_imported | Scorer_missing

record pref_state = plan_state +
  st_poi_scores :: "real list"

record pref_result = route_result +
  user_profile :: string
  poi_scores :: "real list"

text \<open>The inner \<^verbatim>\<open>for\<close> loop of \<^verbatim>\<open>plan_route_with_preferences\<close>. The running
  maximum is \<open>None\<close> while \<^verbatim>\<open>best_poi\<close> is \<^verbatim>\<open>None\<close> (and \<^verbatim>\<open>best_score\<close> minus
  infinity); it holds \<^verbatim>\<open>best_poi\<close>, its coordinate pair, \<^verbatim>\<open>best_score\<close> and
  \<^verbatim>\<open>best_distance\<close>.\<close>

fun best_scan ::
  "string list \<Rightarrow> weights \<Rightarrow> string set \<Rightarrow> coord \<Rightarrow> poi list
     \<Rightarrow> (poi \<times> coord \<times> real \<times> real) option
     \<Rightarrow> py_error + (poi \<times> coord \<times> real \<times> real) option" where
  "best_scan ints w visited cur [] best = Inr best"
| "best_scan ints w visited cur (p # ps) best =
     (if poi_id p \<in> visited then best_scan ints w visited cur ps best
      else
        case planner_coords p of
          None \<Rightarrow> best_scan ints w visited cur ps best
        | Some pc \<Rightarrow>
            (case score_poi p ints cur (Some w) of
               Inl e \<Rightarrow> Inl e
             | Inr scored \<Rightarrow>
                 if (case best of
                       None \<Rightarrow> True
                     | Some (_, _, best_score, _) \<Rightarrow> score scored > best_score)
                 then best_scan ints w visited cur ps
                        (Some (p, pc, score scored, distance_km (components scored)))
                 else best_scan ints w visited cur ps best))"

definition pref_step ::
  "string list \<Rightarrow> weights \<Rightarrow> poi list \<Rightarrow> int \<Rightarrow> int \<Rightarrow> pref_state
     \<Rightarrow> py_error + pref_state option" where
  "pref_step ints w candidate_pois duration_minutes visit_time_per_poi st =
     (case best_scan ints w (st_visited_ids st) (st_current_position st)
             candidate_pois None of
        Inl e \<Rightarrow> Inl e
      | Inr None \<Rightarrow> Inr None
      | Inr (Some (best_poi, pc, best_score, best_distance)) \<Rightarrow>
          let walking_time = estimate_walking_time best_distance;
              total_time_needed = walking_time + of_int visit_time_per_poi
          in if st_time_used st + total_time_needed > of_int duration_minutes
             then Inr None
             else Inr (Some
               \<lparr>st_route = st_route st @
                   [\<lparr>stop_poi = best_poi,
                     distance_from_previous_km = best_distance,
                     stop_walking_time_minutes = walking_time\<rparr>],
                st_visited_ids = insert (poi_id best_poi) (st_visited_ids st),
                st_current_position = pc,
                st_time_used = st_time_used st + total_time_needed,
                st_total_distance = st_total_distance st + best_distance,
                st_poi_scores = st_poi_scores st @ [best_score]\<rparr>))"

lemma best_scan_cases:
  "(\<exists>e. best_scan ints w V cur ps best = Inl e)
   \<or> best_scan ints w V cur ps best = Inr best
   \<or> (\<exists>p pc sc d. best_scan ints w V cur ps best = Inr (Some (p, pc, sc, d))
        \<and> p \<in> set ps \<and> poi_id p \<notin> V \<and> planner_coords p = Some pc)"
proof (induction ps arbitrary: best)
  case Nil
  show ?case by simp
next
  case (Cons q qs)
  show ?case
  proof (cases "poi_id q \<in> V \<or> planner_coords q = None")
    case True
    then have "best_scan ints w V cur (q # qs) best = best_scan ints w V cur qs best"
      by auto
    with Cons.IH [of best] show ?thesis by auto
  next
    case False
    then obtain pc where pc: "planner_coords q = Some pc" and nv: "poi_id q \<notin> V"
      by auto
    show ?thesis
    proof (cases "score_poi q ints cur (Some w)")
      case (Inl e)
      then show ?thesis using pc nv by simp
    next
      case (Inr scored)
      show ?thesis
      proof (cases "case best of None \<Rightarrow> True
                    | Some (_, _, bs, _) \<Rightarrow> score scored > bs")
        case True
        define b' where "b' = Some (q, pc, score scored, distance_km (components scored))"
        from True have e: "best_scan ints w V cur (q # qs) best
                           = best_scan ints w V cur qs b'"
          using pc nv Inr by (simp add: b'_def)
        from Cons.IH [of b'] show ?thesis
        proof (elim disjE)
          assume "\<exists>e. best_scan ints w V cur qs b' = Inl e"
          then show ?thesis unfolding e by blast
        next
          assume "best_scan ints w V cur qs b' = Inr b'"
          then have "best_scan ints w V cur (q # qs) best
              = Inr (Some (q, pc, score scored, distance_km (components scored)))"
            unfolding e b'_def .
          with pc nv show ?thesis by auto
        next
          assume "\<exists>p pc' sc d. best_scan ints w V cur qs b' = Inr (Some (p, pc', sc, d))
                    \<and> p \<in> set qs \<and> poi_id p \<notin> V \<and> planner_coords p = Some pc'"
          then show ?thesis unfolding e by auto
        qed
      next
        case False
        then have "best_scan ints w V cur (q # qs) best = best_scan ints w V cur qs best"
          using pc nv Inr by simp
        with Cons.IH [of best] show ?thesis by auto
      qed
    qed
  qed
qed

lemma best_scan_Some:
  assumes "best_scan ints w V cur ps None = Inr (Some (p, pc, sc, d))"
  shows "p \<in> set ps \<and> poi_id p \<notin> V \<and> planner_coords p = Some pc"
  using best_scan_cases [of ints w V cur ps None] assms by auto

lemma pref_step_decreases:
  assumes "pref_step ints w cands dur vis st = Inr (Some st')"
  shows "unvisited_count cands (st_visited_ids st')
         < unvisited_count cands (st_visited_ids st)"
proof -
  from assms obtain p pc sc d where
    s: "best_scan ints w (st_visited_ids st) (st_current_position st) cands None
          = Inr (Some (p, pc, sc, d))"
    and v: "st_visited_ids st' = insert (poi_id p) (st_visited_ids st)"
    by (auto simp add: pref_step_def Let_def split: sum.splits option.splits if_splits)
  from best_scan_Some [OF s] have "p \<in> set cands" "poi_id p \<notin> st_visited_ids st"
    by simp_all
  then show ?thesis unfolding v by (rule unvisited_count_insert)
qed

function pref_loop ::
  "string list \<Rightarrow> weights \<Rightarrow> poi list \<Rightarrow> int \<Rightarrow> int \<Rightarrow> pref_state
     \<Rightarrow> py_error + pref_state" where
  "pref_loop ints w candidate_pois duration_minutes visit_time_per_poi st =
     (case pref_step ints w candidate_pois duration_minutes visit_time_per_poi st of
        Inl e \<Rightarrow> Inl e
      | Inr None \<Rightarrow> Inr st
      | Inr (Some st') \<Rightarrow>
          pref_loop ints w candidate_pois duration_minutes visit_time_per_poi st')"
  by pat_completeness auto
termination
  by (relation "measure (\<lambda>(ints, w, cands, dur, vis, st).
        unvisited_count cands (st_visited_ids st))")
     (simp_all add: pref_step_decreases)

declare pref_loop.simps [simp del]

definition initial_pref_state :: "coord \<Rightarrow> pref_state" where
  "initial_pref_state start =
     \<lparr>st_route = [], st_visited_ids = {}, st_current_position = start,
      st_time_used = 0, st_total_distance = 0, st_poi_scores = []\<rparr>"

definition plan_route_with_preferences ::
  "scorer_import \<Rightarrow> coord \<Rightarrow> poi list \<Rightarrow> int \<Rightarrow> string \<Rightarrow> int \<Rightarrow> bool \<Rightarrow> weights option
     \<Rightarrow> py_error + pref_result" where
  "plan_route_with_preferences imp start candidate_pois duration_minutes profile
       visit_time_per_poi return_requested scoring_weights =
     (case imp of
        Scorer_missing \<Rightarrow>
          Inl (ImportError ''poi_scorer module required for preference-based routing'')
      | Scorer_imported \<Rightarrow>
          (case profile_interests profile of
             Inl e \<Rightarrow> Inl e
           | Inr ints \<Rightarrow>
               let w = (case scoring_weights of
                          None \<Rightarrow> DEFAULT_WEIGHTS
                        | Some sw \<Rightarrow> sw)
               in case pref_loop ints w candidate_pois duration_minutes
                         visit_time_per_poi (initial_pref_state start) of
                    Inl e \<Rightarrow> Inl e
                  | Inr st \<Rightarrow>
                      Inr (route_result.extend
                             (build_result start duration_minutes visit_time_per_poi
                                return_requested st)
                             (pref_result.fields profile (st_poi_scores st)))))"

section \<open>Properties\<close>

subsection \<open>Geo distance\<close>

lemma haversine_range_aux:
  fixes p q l :: real
  shows "0 \<le> (sin ((q - p) / 2))\<^sup>2 + cos p * cos q * (sin l)\<^sup>2"
    and "(sin ((q - p) / 2))\<^sup>2 + cos p * cos q * (sin l)\<^sup>2 \<le> 1"
proof -
  define u where "u = (sin ((q - p) / 2))\<^sup>2"
  define v where "v = (sin l)\<^sup>2"
  define c where "c = cos p * cos q"
  have c: "c = (cos (p - q) + cos (p + q)) / 2"
    unfolding c_def by (rule cos_times_cos)
  have "cos (p - q) = cos (- (p - q))" by (simp only: cos_minus)
  also have "- (p - q) = 2 * ((q - p) / 2)" by simp
  also have "cos (2 * ((q - p) / 2)) = 1 - 2 * u"
    unfolding u_def by (rule cos_double_sin)
  finally have d: "cos (p - q) = 1 - 2 * u" .
  have c2: "c = (1 - 2 * u + cos (p + q)) / 2"
    using c unfolding d .
  have g: "0 \<le> 1 + cos (p + q)"
    using cos_ge_minus_one [of "p + q"] by linarith
  have lo: "- u \<le> c"
    unfolding c2 using g by (simp add: field_simps)
  have hi: "c \<le> 1 - u"
    unfolding c2 by (simp add: field_simps)
  have v0: "0 \<le> v" unfolding v_def by simp
  have v1: "v \<le> 1" unfolding v_def using abs_sin_le_one [of l]
    by (simp add: abs_square_le_1)
  have u0: "0 \<le> u" unfolding u_def by simp
  have u1: "u \<le> 1" unfolding u_def using abs_sin_le_one [of "(q - p) / 2"]
    by (simp add: abs_square_le_1)
  have m1: "- u * v \<le> c * v" by (rule mult_right_mono [OF lo v0])
  have m2: "0 \<le> u * (1 - v)" using u0 v1 by simp
  have "u + c * v = u * (1 - v) + (c * v - (- u * v))" by (simp add: algebra_simps)
  with m1 m2 have "0 \<le> u + c * v" by linarith
  then show "0 \<le> (sin ((q - p) / 2))\<^sup>2 + cos p * cos q * (sin l)\<^sup>2"
    unfolding u_def v_def c_def .
  have m3: "c * v \<le> (1 - u) * v" by (rule mult_right_mono [OF hi v0])
  have "0 \<le> 1 - u" using u1 by simp
  then have m4: "(1 - u) * v \<le> (1 - u) * 1" using v1 by (rule mult_left_mono [rotated])
  from m3 m4 have "c * v \<le> 1 - u" by simp
  then have "u + c * v \<le> 1" by linarith
  then show "(sin ((q - p) / 2))\<^sup>2 + cos p * cos q * (sin l)\<^sup>2 \<le> 1"
    unfolding u_def v_def c_def .
qed

lemma radians_diff: "radians (x - y) = radians x - radians y"
  by (simp add: radians_def left_diff_distrib)


lemma haversine_a_range: "0 \<le> haversine_a a b \<and> haversine_a a b \<le> 1"
proof (cases a, cases b)
  fix lat1 lng1 lat2 lng2
  assume "a = (lat1, lng1)" "b = (lat2, lng2)"
  then show ?thesis
    using haversine_range_aux [of "radians lat2" "radians lat1" "radians (lng2 - lng1) / 2"]
    by (simp add: haversine_a_def radians_diff)
qed

lemma sqrt_haversine_range:
  "0 \<le> sqrt (haversine_a a b) \<and> sqrt (haversine_a a b) \<le> 1"
  using haversine_a_range [of a b] by simp

lemma calculate_distance_never_raises:
  "calculate_distance_raising a b = Inr (calculate_distance a b)"
proof -
  have a0: "\<not> haversine_a a b < 0"
    using haversine_a_range [of a b] by simp
  have "0 \<le> sqrt (haversine_a a b)" "sqrt (haversine_a a b) \<le> 1"
    using sqrt_haversine_range [of a b] by blast+
  then have s: "\<not> (sqrt (haversine_a a b) < - 1 \<or> 1 < sqrt (haversine_a a b))"
    by linarith
  show ?thesis
    unfolding calculate_distance_raising_def calculate_distance_def math_sqrt_def
      math_asin_def
    using a0 s by simp
qed

lemma calculate_distance_nonneg: "0 \<le> calculate_distance a b"
proof -
  have "0 \<le> arcsin (sqrt (haversine_a a b))"
    using sqrt_haversine_range [of a b] by (simp add: arcsin_nonneg)
  then show ?thesis by (simp add: calculate_distance_def EARTH_RADIUS_KM_def)
qed

lemma haversine_a_sym: "haversine_a a b = haversine_a b a"
proof (cases a, cases b)
  fix lat1 lng1 lat2 lng2
  assume ab: "a = (lat1, lng1)" "b = (lat2, lng2)"
  have s: "\<And>x y :: real. (sin (radians (x - y) / 2))\<^sup>2 = (sin (radians (y - x) / 2))\<^sup>2"
  proof -
    fix x y :: real
    have "radians (x - y) = - radians (y - x)"
      by (simp add: radians_diff)
    then have "radians (x - y) / 2 = - (radians (y - x) / 2)"
      by simp
    then show "(sin (radians (x - y) / 2))\<^sup>2 = (sin (radians (y - x) / 2))\<^sup>2"
      by (simp only: sin_minus power2_minus)
  qed
  show ?thesis
    unfolding ab haversine_a_def
    by (simp add: s [of lat2 lat1] s [of lng2 lng1] mult.commute)
qed

lemma calculate_distance_sym: "calculate_distance a b = calculate_distance b a"
  by (simp add: calculate_distance_def haversine_a_sym [of a b])

lemma calculate_distance_zero_iff:
  "calculate_distance a b = 0 \<longleftrightarrow> haversine_a a b = 0"
proof -
  have "\<bar>sqrt (haversine_a a b)\<bar> \<le> 1"
    using sqrt_haversine_range [of a b] by simp
  then have "arcsin (sqrt (haversine_a a b)) = arcsin 0 \<longleftrightarrow> sqrt (haversine_a a b) = 0"
    by (rule arcsin_eq_iff) simp
  then have "arcsin (sqrt (haversine_a a b)) = 0 \<longleftrightarrow> haversine_a a b = 0"
    by simp
  then show ?thesis
    by (simp add: calculate_distance_def EARTH_RADIUS_KM_def)
qed

lemma calculate_distance_self: "calculate_distance a a = 0"
  by (cases a) (simp add: calculate_distance_zero_iff haversine_a_def radians_def)





lemma pi_ge_3: "3 \<le> pi"
  using sin_x_le_x [of "pi / 6"] sin_30 by simp

lemma calculate_distance_half_turn_east:
  "calculate_distance (0, 0) (0, 180) = 6371 * pi"
  by (simp add: calculate_distance_def haversine_a_def radians_def EARTH_RADIUS_KM_def)

lemma calculate_distance_half_turn_west:
  "calculate_distance (0, 180) (0, 0) = 6371 * pi"
  by (simp add: calculate_distance_sym [of "(0, 180)" "(0, 0)"]
      calculate_distance_half_turn_east)





subsection \<open>Popularity\<close>

text \<open>The heuristic part of the popularity: base, facts bonus, visual-cues bonus.\<close>

definition popularity_heuristic :: "poi \<Rightarrow> real" where
  "popularity_heuristic p =
     5 / 10 + (if present_and_truthy (facts p) then 3 / 10 else 0)
            + (if present_and_truthy (visual_cues p) then 1 / 10 else 0)"

lemma popularity_heuristic_range:
  "5 / 10 \<le> popularity_heuristic p \<and> popularity_heuristic p \<le> 9 / 10"
  by (simp add: popularity_heuristic_def)

text \<open>
  Claim C5. \<^verbatim>\<open>calculate_popularity_score\<close> is the heuristic (0.5, plus 0.3 with facts,
  plus 0.1 with visual cues), raised to the quality hint \<^verbatim>\<open>source_reliability\<close> when
  one is present, and capped at 1. The result lies between 0 and 1, and it is never
  below the capped heuristic: the hint can raise the estimate and cannot lower it.
\<close>

theorem calculate_popularity_score_spec:
  "calculate_popularity_score p =
     min (case source_reliability p of
            None \<Rightarrow> popularity_heuristic p
          | Some r \<Rightarrow> max (popularity_heuristic p) r) 1
   \<and> 0 \<le> calculate_popularity_score p
   \<and> calculate_popularity_score p \<le> 1
   \<and> min (popularity_heuristic p) 1 \<le> calculate_popularity_score p
   \<and> calculate_popularity_score (p\<lparr>source_reliability := None\<rparr>)
        \<le> calculate_popularity_score p"
  by (cases "source_reliability p")
     (auto simp add: calculate_popularity_score_def popularity_heuristic_def
        le_max_iff_disj)

theorem calculate_popularity_score_spec_witness:
  "calculate_popularity_score
     \<lparr>poi_id = ''castle'', poi_name = ''Richmond Castle'', geo = None,
      vibe_tags = None, facts = Some [''built 1071''], visual_cues = Some [],
      source_reliability = Some (95 / 100)\<rparr> = 95 / 100
   \<and> calculate_popularity_score
     \<lparr>poi_id = ''castle'', poi_name = ''Richmond Castle'', geo = None,
      vibe_tags = None, facts = Some [''built 1071''], visual_cues = Some [],
      source_reliability = Some (2 / 10)\<rparr> = 8 / 10"
  using calculate_popularity_score_spec
    [of "\<lparr>poi_id = ''castle'', poi_name = ''Richmond Castle'', geo = None,
      vibe_tags = None, facts = Some [''built 1071''], visual_cues = Some [],
      source_reliability = Some (95 / 100)\<rparr>"]
    calculate_popularity_score_spec
    [of "\<lparr>poi_id = ''castle'', poi_name = ''Richmond Castle'', geo = None,
      vibe_tags = None, facts = Some [''built 1071''], visual_cues = Some [],
      source_reliability = Some (2 / 10)\<rparr>"]
  by (simp add: popularity_heuristic_def present_and_truthy_def)

subsection \<open>The time budget of the nearest-neighbor planner\<close>



lemma round_half_even_0: "round_half_even 0 = 0"
  by (simp add: round_half_even_def)

lemma py_round_0: "py_round 0 n = 0"
  by (simp add: py_round_def round_half_even_0)

lemma estimate_walking_time_nonneg: "0 \<le> d \<Longrightarrow> 0 \<le> estimate_walking_time d"
  by (simp add: estimate_walking_time_def WALKING_SPEED_KMH_def)




lemma nn_loop_empty: "nn_loop [] dur vis st = st"
  by (simp add: nn_loop.simps [of "[]" dur vis st] nn_step_def)


definition market_place :: coord where
  "market_place = (544025 / 10000, - 17367 / 10000)"

definition richmond_castle :: poi where
  "richmond_castle =
     \<lparr>poi_id = ''castle'', poi_name = ''Richmond Castle'',
      geo = Some \<lparr>lat = Some (544039 / 10000), lng = Some (- 17394 / 10000)\<rparr>,
      vibe_tags = Some [''history'', ''medieval''], facts = Some [''built 1071''],
      visual_cues = None, source_reliability = Some (9 / 10)\<rparr>"

definition greyfriars_tower :: poi where
  "greyfriars_tower =
     \<lparr>poi_id = ''greyfriars'', poi_name = ''Greyfriars Tower'',
      geo = Some \<lparr>lat = Some (544028 / 10000), lng = Some (- 1735 / 1000)\<rparr>,
      vibe_tags = Some [''ruins'', ''religious''], facts = None,
      visual_cues = None, source_reliability = None\<rparr>"



subsection \<open>Empty candidate lists and budgets that are zero or negative\<close>

lemma nn_step_no_budget:
  assumes "dur \<le> 0" "0 < vis" "st_time_used st = 0"
  shows "nn_step cands dur vis st = None"
proof (cases "nearest_scan (st_visited_ids st) (st_current_position st) cands None")
  case None
  then show ?thesis by (simp add: nn_step_def)
next
  case (Some t)
  obtain p pc d where t: "t = (p, pc, d)" by (cases t) auto
  from nearest_scan_Some [OF Some [unfolded t]]
  have "d = calculate_distance (st_current_position st) pc" by simp
  then have "0 \<le> estimate_walking_time d"
    by (simp add: estimate_walking_time_nonneg calculate_distance_nonneg)
  moreover have "(of_int dur :: real) \<le> 0" "(0 :: real) < of_int vis"
    using assms(1,2) by simp_all
  ultimately have "st_time_used st + (estimate_walking_time d + of_int vis) > of_int dur"
    using assms(3) by linarith
  then show ?thesis using Some t by (simp add: nn_step_def Let_def)
qed

lemma nn_loop_no_budget:
  assumes "dur \<le> 0" "0 < vis"
  shows "nn_loop cands dur vis (initial_state start) = initial_state start"
proof -
  have "nn_step cands dur vis (initial_state start) = None"
    using assms by (intro nn_step_no_budget) (simp_all add: initial_state_def)
  then show ?thesis
    by (simp add: nn_loop.simps [of cands dur vis "initial_state start"])
qed

lemma build_result_initial:
  "build_result start dur vis ret (initial_state start) =
     \<lparr>route = [], total_distance_km = 0, total_time_minutes = 0,
      walking_time_minutes = 0, visit_time_minutes = 0, pois_visited = 0,
      time_remaining = of_int dur, start_coords = start, return_to_start = ret,
      return_distance_km = 0\<rparr>"
  by (simp add: build_result_def return_leg_def initial_state_def py_round_0)

lemma nn_step_route_length:
  assumes "nn_step cands dur vis st = Some st'"
  shows "length (st_route st') + unvisited_count cands (st_visited_ids st')
         \<le> length (st_route st) + unvisited_count cands (st_visited_ids st)"
proof -
  from nn_step_Some [OF assms] have "length (st_route st') = Suc (length (st_route st))"
    by auto
  with nn_step_decreases [OF assms] show ?thesis by simp
qed

lemma nn_loop_route_length:
  "length (st_route (nn_loop cands dur vis st))
     + unvisited_count cands (st_visited_ids (nn_loop cands dur vis st))
   \<le> length (st_route st) + unvisited_count cands (st_visited_ids st)"
proof (induction cands dur vis st rule: nn_loop.induct)
  case (1 cands dur vis st)
  show ?case
  proof (cases "nn_step cands dur vis st")
    case None
    then show ?thesis by (simp add: nn_loop.simps [of cands dur vis st])
  next
    case (Some st')
    from "1.IH" [OF Some] nn_step_route_length [OF Some] Some
    show ?thesis by (simp add: nn_loop.simps [of cands dur vis st])
  qed
qed

lemma plan_route_route:
  "route (plan_route start cands dur vis ret)
     = st_route (nn_loop cands dur vis (initial_state start))"
  by (simp add: plan_route_def build_result_def Let_def split: prod.splits)

lemma plan_route_pois_visited:
  "pois_visited (plan_route start cands dur vis ret)
     = length (route (plan_route start cands dur vis ret))"
  by (simp add: plan_route_def build_result_def Let_def split: prod.splits)

text \<open>
  Claim C7. \<^verbatim>\<open>plan_route\<close> returns a result for every input: its loop ends (the
  termination proof of \<open>nn_loop\<close>), and the library calls in \<^verbatim>\<open>calculate_distance\<close>
  that can raise never do, so that its result type has no error. An empty candidate list gives the empty result with the whole budget
  left. A budget that is zero or negative, with a positive visit time (the default
  is 5), gives an empty route and \<^verbatim>\<open>pois_visited = 0\<close>. A route is never longer than
  the candidate list.
\<close>

theorem plan_route_degrades_gracefully:
  "plan_route start [] dur vis ret =
     \<lparr>route = [], total_distance_km = 0, total_time_minutes = 0,
      walking_time_minutes = 0, visit_time_minutes = 0, pois_visited = 0,
      time_remaining = of_int dur, start_coords = start, return_to_start = ret,
      return_distance_km = 0\<rparr>
   \<and> (dur \<le> 0 \<and> 0 < vis \<longrightarrow>
        plan_route start cands dur vis ret =
          \<lparr>route = [], total_distance_km = 0, total_time_minutes = 0,
           walking_time_minutes = 0, visit_time_minutes = 0, pois_visited = 0,
           time_remaining = of_int dur, start_coords = start, return_to_start = ret,
           return_distance_km = 0\<rparr>)
   \<and> route (plan_route start cands 0 DEFAULT_VISIT_TIME_MINUTES ret) = []
   \<and> pois_visited (plan_route start cands 0 DEFAULT_VISIT_TIME_MINUTES ret) = 0
   \<and> pois_visited (plan_route start cands dur vis ret)
        = length (route (plan_route start cands dur vis ret))
   \<and> length (route (plan_route start cands dur vis ret)) \<le> length cands
   \<and> calculate_distance_raising a b = Inr (calculate_distance a b)"
proof (intro conjI impI)
  show "plan_route start [] dur vis ret =
     \<lparr>route = [], total_distance_km = 0, total_time_minutes = 0,
      walking_time_minutes = 0, visit_time_minutes = 0, pois_visited = 0,
      time_remaining = of_int dur, start_coords = start, return_to_start = ret,
      return_distance_km = 0\<rparr>"
    by (simp add: plan_route_def nn_loop_empty build_result_initial)
next
  assume "dur \<le> 0 \<and> 0 < vis"
  then show "plan_route start cands dur vis ret =
          \<lparr>route = [], total_distance_km = 0, total_time_minutes = 0,
           walking_time_minutes = 0, visit_time_minutes = 0, pois_visited = 0,
           time_remaining = of_int dur, start_coords = start, return_to_start = ret,
           return_distance_km = 0\<rparr>"
    by (simp add: plan_route_def nn_loop_no_budget build_result_initial)
next
  have z: "plan_route start cands 0 DEFAULT_VISIT_TIME_MINUTES ret
           = build_result start 0 DEFAULT_VISIT_TIME_MINUTES ret (initial_state start)"
    by (simp add: plan_route_def nn_loop_no_budget DEFAULT_VISIT_TIME_MINUTES_def)
  show "route (plan_route start cands 0 DEFAULT_VISIT_TIME_MINUTES ret) = []"
    unfolding z by (simp add: build_result_initial)
  show "pois_visited (plan_route start cands 0 DEFAULT_VISIT_TIME_MINUTES ret) = 0"
    unfolding z by (simp add: build_result_initial)
next
  show "pois_visited (plan_route start cands dur vis ret)
        = length (route (plan_route start cands dur vis ret))"
    by (rule plan_route_pois_visited)
next
  have "length (st_route (nn_loop cands dur vis (initial_state start)))
        \<le> length (st_route (initial_state start))
           + unvisited_count cands (st_visited_ids (initial_state start))"
    using nn_loop_route_length [of cands dur vis "initial_state start"] by linarith
  then show "length (route (plan_route start cands dur vis ret)) \<le> length cands"
    by (simp add: plan_route_route initial_state_def unvisited_count_def)
next
  show "calculate_distance_raising a b = Inr (calculate_distance a b)"
    by (rule calculate_distance_never_raises)
qed

theorem plan_route_degrades_gracefully_witness:
  "plan_route market_place [richmond_castle, greyfriars_tower] (- 10) 5 True =
     \<lparr>route = [], total_distance_km = 0, total_time_minutes = 0,
      walking_time_minutes = 0, visit_time_minutes = 0, pois_visited = 0,
      time_remaining = - 10, start_coords = market_place, return_to_start = True,
      return_distance_km = 0\<rparr>
   \<and> route (plan_route market_place [richmond_castle, greyfriars_tower] 0
        DEFAULT_VISIT_TIME_MINUTES False) = []
   \<and> pois_visited (plan_route market_place [richmond_castle, greyfriars_tower] 0
        DEFAULT_VISIT_TIME_MINUTES False) = 0"
  using plan_route_degrades_gracefully
      [where start = market_place and dur = "- 10" and vis = 5 and ret = True
         and cands = "[richmond_castle, greyfriars_tower]"]
    plan_route_degrades_gracefully
      [where start = market_place and dur = 0 and vis = 5 and ret = False
         and cands = "[richmond_castle, greyfriars_tower]"]
  by simp

subsection \<open>Selection of the nearest candidate\<close>

text \<open>A candidate the scan of \<^verbatim>\<open>plan_route\<close> looks at: not yet visited, with both
  coordinates.\<close>

definition eligible :: "string set \<Rightarrow> poi \<Rightarrow> bool" where
  "eligible visited p = (poi_id p \<notin> visited \<and> planner_coords p \<noteq> None)"

text \<open>Its distance from the current position.\<close>

definition distance_from :: "coord \<Rightarrow> poi \<Rightarrow> real" where
  "distance_from cur p =
     (case planner_coords p of None \<Rightarrow> 0 | Some pc \<Rightarrow> calculate_distance cur pc)"

text \<open>The running minimum is below a bound, strictly or not.\<close>

definition below :: "bool \<Rightarrow> real \<Rightarrow> (poi \<times> coord \<times> real) option \<Rightarrow> bool" where
  "below strict d nearest =
     (case nearest of
        None \<Rightarrow> True
      | Some (_, _, nd) \<Rightarrow> if strict then d < nd else d \<le> nd)"

lemma nearest_scan_skip:
  "\<not> eligible V q \<Longrightarrow> nearest_scan V cur (q # qs) nearest = nearest_scan V cur qs nearest"
  by (cases "planner_coords q") (auto simp add: eligible_def)

lemma nearest_scan_take:
  assumes "eligible V q" "planner_coords q = Some pc"
    and "below True (calculate_distance cur pc) nearest"
  shows "nearest_scan V cur (q # qs) nearest
         = nearest_scan V cur qs (Some (q, pc, calculate_distance cur pc))"
  using assms by (auto simp add: eligible_def below_def Let_def split: option.splits)

lemma nearest_scan_keep:
  assumes "eligible V q" "planner_coords q = Some pc"
    and "\<not> below True (calculate_distance cur pc) nearest"
  shows "nearest_scan V cur (q # qs) nearest = nearest_scan V cur qs nearest"
  using assms by (auto simp add: eligible_def below_def Let_def split: option.splits)

declare nearest_scan.simps(2) [simp del]

lemma nearest_scan_None:
  "nearest_scan V cur ps nearest = None
   \<longleftrightarrow> nearest = None \<and> (\<forall>q \<in> set ps. \<not> eligible V q)"
proof (induction ps arbitrary: nearest)
  case Nil
  show ?case by simp
next
  case (Cons q qs)
  show ?case
  proof (cases "eligible V q")
    case False
    then show ?thesis using Cons.IH [of nearest] by (simp add: nearest_scan_skip)
  next
    case True
    then obtain pc where pc: "planner_coords q = Some pc" by (auto simp add: eligible_def)
    show ?thesis
    proof (cases "below True (calculate_distance cur pc) nearest")
      case True
      from nearest_scan_take [OF \<open>eligible V q\<close> pc True]
      show ?thesis using Cons.IH [of "Some (q, pc, calculate_distance cur pc)"]
        \<open>eligible V q\<close> by simp
    next
      case False
      then have "nearest \<noteq> None" by (cases nearest) (simp_all add: below_def)
      moreover from nearest_scan_keep [OF \<open>eligible V q\<close> pc False]
      have "nearest_scan V cur (q # qs) nearest = nearest_scan V cur qs nearest" .
      ultimately show ?thesis using Cons.IH [of nearest] by auto
    qed
  qed
qed

text \<open>The result is a lower bound of everything scanned and of the initial minimum.\<close>

lemma nearest_scan_lower_bound:
  assumes "nearest_scan V cur ps nearest = Some (p, pc, d)"
  shows "below False d nearest \<and> (\<forall>q \<in> set ps. eligible V q \<longrightarrow> d \<le> distance_from cur q)"
  using assms
proof (induction ps arbitrary: nearest)
  case Nil
  then show ?case by (simp add: below_def)
next
  case (Cons q qs)
  show ?case
  proof (cases "eligible V q")
    case False
    with Cons.prems have "nearest_scan V cur qs nearest = Some (p, pc, d)"
      by (simp add: nearest_scan_skip)
    from Cons.IH [OF this] False show ?thesis by simp
  next
    case True
    then obtain qc where qc: "planner_coords q = Some qc" by (auto simp add: eligible_def)
    then have dq: "distance_from cur q = calculate_distance cur qc"
      by (simp add: distance_from_def)
    show ?thesis
    proof (cases "below True (calculate_distance cur qc) nearest")
      case True
      with Cons.prems nearest_scan_take [OF \<open>eligible V q\<close> qc True]
      have "nearest_scan V cur qs (Some (q, qc, calculate_distance cur qc)) = Some (p, pc, d)"
        by simp
      from Cons.IH [OF this]
      have le: "d \<le> calculate_distance cur qc"
        and rest: "\<forall>q \<in> set qs. eligible V q \<longrightarrow> d \<le> distance_from cur q"
        by (simp_all add: below_def)
      from le True have "below False d nearest"
        by (auto simp add: below_def split: option.splits)
      with le rest dq show ?thesis by simp
    next
      case False
      with Cons.prems nearest_scan_keep [OF \<open>eligible V q\<close> qc False]
      have "nearest_scan V cur qs nearest = Some (p, pc, d)" by simp
      from Cons.IH [OF this]
      have b: "below False d nearest"
        and rest: "\<forall>q \<in> set qs. eligible V q \<longrightarrow> d \<le> distance_from cur q"
        by simp_all
      from b False have "d \<le> calculate_distance cur qc"
        by (auto simp add: below_def split: option.splits)
      with b rest dq show ?thesis by simp
    qed
  qed
qed

text \<open>Either the initial minimum survives, or the result is a candidate of the list,
  strictly nearer than every eligible candidate before it and than the initial
  minimum.\<close>

lemma nearest_scan_first:
  assumes "nearest_scan V cur ps nearest = Some (p, pc, d)"
  shows "nearest = Some (p, pc, d)
       \<or> (\<exists>pre post. ps = pre @ p # post \<and> eligible V p \<and> planner_coords p = Some pc
            \<and> d = calculate_distance cur pc \<and> below True d nearest
            \<and> (\<forall>q \<in> set pre. eligible V q \<longrightarrow> d < distance_from cur q))"
  using assms
proof (induction ps arbitrary: nearest)
  case Nil
  then show ?case by simp
next
  case (Cons q qs)
  show ?case
  proof (cases "eligible V q")
    case False
    with Cons.prems have "nearest_scan V cur qs nearest = Some (p, pc, d)"
      by (simp add: nearest_scan_skip)
    from Cons.IH [OF this] show ?thesis
    proof
      assume "nearest = Some (p, pc, d)"
      then show ?thesis by simp
    next
      assume "\<exists>pre post. qs = pre @ p # post \<and> eligible V p \<and> planner_coords p = Some pc
            \<and> d = calculate_distance cur pc \<and> below True d nearest
            \<and> (\<forall>q \<in> set pre. eligible V q \<longrightarrow> d < distance_from cur q)"
      then obtain pre post where
        h: "qs = pre @ p # post" "eligible V p" "planner_coords p = Some pc"
          "d = calculate_distance cur pc" "below True d nearest"
          "\<forall>q \<in> set pre. eligible V q \<longrightarrow> d < distance_from cur q"
        by blast
      have "q # qs = (q # pre) @ p # post" using h(1) by simp
      moreover have "\<forall>x \<in> set (q # pre). eligible V x \<longrightarrow> d < distance_from cur x"
        using h(6) False by simp
      ultimately show ?thesis using h(2-5) by blast
    qed
  next
    case True
    then obtain qc where qc: "planner_coords q = Some qc" by (auto simp add: eligible_def)
    then have dq: "distance_from cur q = calculate_distance cur qc"
      by (simp add: distance_from_def)
    show ?thesis
    proof (cases "below True (calculate_distance cur qc) nearest")
      case take: True
      with Cons.prems nearest_scan_take [OF True qc take]
      have "nearest_scan V cur qs (Some (q, qc, calculate_distance cur qc)) = Some (p, pc, d)"
        by simp
      from Cons.IH [OF this] show ?thesis
      proof
        assume "Some (q, qc, calculate_distance cur qc) = Some (p, pc, d)"
        then have e: "p = q" "pc = qc" "d = calculate_distance cur qc" by auto
        have "q # qs = [] @ p # qs" using e by simp
        moreover have "\<forall>x \<in> set []. eligible V x \<longrightarrow> d < distance_from cur x" by simp
        ultimately show ?thesis using True qc take e by blast
      next
        assume "\<exists>pre post. qs = pre @ p # post \<and> eligible V p \<and> planner_coords p = Some pc
            \<and> d = calculate_distance cur pc
            \<and> below True d (Some (q, qc, calculate_distance cur qc))
            \<and> (\<forall>q \<in> set pre. eligible V q \<longrightarrow> d < distance_from cur q)"
        then obtain pre post where
          h: "qs = pre @ p # post" "eligible V p" "planner_coords p = Some pc"
            "d = calculate_distance cur pc"
            "below True d (Some (q, qc, calculate_distance cur qc))"
            "\<forall>q \<in> set pre. eligible V q \<longrightarrow> d < distance_from cur q"
          by blast
        from h(5) have lt: "d < calculate_distance cur qc" by (simp add: below_def)
        with take have b: "below True d nearest"
          by (auto simp add: below_def split: option.splits)
        have "q # qs = (q # pre) @ p # post" using h(1) by simp
        moreover have "\<forall>x \<in> set (q # pre). eligible V x \<longrightarrow> d < distance_from cur x"
          using h(6) lt dq by simp
        ultimately show ?thesis using h(2-4) b by blast
      qed
    next
      case keep: False
      with Cons.prems nearest_scan_keep [OF True qc keep]
      have "nearest_scan V cur qs nearest = Some (p, pc, d)" by simp
      from Cons.IH [OF this] show ?thesis
      proof
        assume "nearest = Some (p, pc, d)"
        then show ?thesis by simp
      next
        assume "\<exists>pre post. qs = pre @ p # post \<and> eligible V p \<and> planner_coords p = Some pc
            \<and> d = calculate_distance cur pc \<and> below True d nearest
            \<and> (\<forall>q \<in> set pre. eligible V q \<longrightarrow> d < distance_from cur q)"
        then obtain pre post where
          h: "qs = pre @ p # post" "eligible V p" "planner_coords p = Some pc"
            "d = calculate_distance cur pc" "below True d nearest"
            "\<forall>q \<in> set pre. eligible V q \<longrightarrow> d < distance_from cur q"
          by blast
        from h(5) keep have lt: "d < calculate_distance cur qc"
          by (auto simp add: below_def split: option.splits)
        have "q # qs = (q # pre) @ p # post" using h(1) by simp
        moreover have "\<forall>x \<in> set (q # pre). eligible V x \<longrightarrow> d < distance_from cur x"
          using h(6) lt dq by simp
        ultimately show ?thesis using h(2-5) by blast
      qed
    qed
  qed
qed


lemma planner_coords_Some_iff:
  "planner_coords p = Some (la, lo)
   \<longleftrightarrow> (\<exists>g. geo p = Some g \<and> lat g = Some la \<and> lng g = Some lo)"
  by (auto simp add: planner_coords_def split: option.splits)

text \<open>The state after a stop at \<open>p\<close> is committed.\<close>

definition commit_stop ::
  "int \<Rightarrow> poi \<Rightarrow> coord \<Rightarrow> real \<Rightarrow> plan_state \<Rightarrow> plan_state" where
  "commit_stop vis p pc d st =
     \<lparr>st_route = st_route st @
         [\<lparr>stop_poi = p, distance_from_previous_km = d,
           stop_walking_time_minutes = estimate_walking_time d\<rparr>],
      st_visited_ids = insert (poi_id p) (st_visited_ids st),
      st_current_position = pc,
      st_time_used = st_time_used st + (estimate_walking_time d + of_int vis),
      st_total_distance = st_total_distance st + d\<rparr>"

lemma nn_loop_exhausted:
  assumes "nearest_scan (st_visited_ids st) (st_current_position st) cands None = None"
  shows "nn_loop cands dur vis st = st"
  using assms by (simp add: nn_loop.simps [of cands dur vis st] nn_step_def)

lemma nn_loop_over_budget:
  assumes "nearest_scan (st_visited_ids st) (st_current_position st) cands None
           = Some (p, pc, d)"
    and "st_time_used st + (estimate_walking_time d + of_int vis) > of_int dur"
  shows "nn_loop cands dur vis st = st"
  using assms by (simp add: nn_loop.simps [of cands dur vis st] nn_step_def)

lemma nn_loop_commit:
  assumes "nearest_scan (st_visited_ids st) (st_current_position st) cands None
           = Some (p, pc, d)"
    and "st_time_used st + (estimate_walking_time d + of_int vis) \<le> of_int dur"
  shows "nn_loop cands dur vis st = nn_loop cands dur vis (commit_stop vis p pc d st)"
  using assms
  by (simp add: nn_loop.simps [of cands dur vis st] nn_step_def commit_stop_def Let_def)

text \<open>
  Claim C2. In each pass of the loop of \<^verbatim>\<open>plan_route\<close> the scan returns nothing
  exactly when no candidate is eligible (unvisited, with \<^verbatim>\<open>lat\<close> and \<^verbatim>\<open>lng\<close>).
  Otherwise it returns an eligible candidate at minimum distance from the current
  position, and the first such in input order: every eligible candidate before it
  is strictly farther, every one after it is at least as far. When the walking time
  to it plus the visit time would pass the budget, the loop ends in the state it is
  in: no farther candidate is tried. Otherwise the stop is committed and the loop
  goes on from there.
\<close>

theorem nearest_neighbor_selection:
  "(nearest_scan V cur ps None = None \<longleftrightarrow> (\<forall>q \<in> set ps. \<not> eligible V q))
   \<and> (nearest_scan V cur ps None = Some (p, pc, d) \<longrightarrow>
        (\<exists>pre post. ps = pre @ p # post \<and> eligible V p \<and> planner_coords p = Some pc
           \<and> d = calculate_distance cur pc
           \<and> (\<forall>q \<in> set pre. eligible V q \<longrightarrow> d < distance_from cur q)
           \<and> (\<forall>q \<in> set post. eligible V q \<longrightarrow> d \<le> distance_from cur q)))
   \<and> (nearest_scan (st_visited_ids st) (st_current_position st) cands None = None \<longrightarrow>
        nn_loop cands dur vis st = st)
   \<and> (nearest_scan (st_visited_ids st) (st_current_position st) cands None
          = Some (p', pc', d')
        \<and> st_time_used st + (estimate_walking_time d' + of_int vis) > of_int dur \<longrightarrow>
        nn_loop cands dur vis st = st)
   \<and> (nearest_scan (st_visited_ids st) (st_current_position st) cands None
          = Some (p', pc', d')
        \<and> st_time_used st + (estimate_walking_time d' + of_int vis) \<le> of_int dur \<longrightarrow>
        nn_loop cands dur vis st = nn_loop cands dur vis (commit_stop vis p' pc' d' st))"
proof (intro conjI impI)
  show "nearest_scan V cur ps None = None \<longleftrightarrow> (\<forall>q \<in> set ps. \<not> eligible V q)"
    by (simp add: nearest_scan_None)
next
  assume s: "nearest_scan V cur ps None = Some (p, pc, d)"
  from nearest_scan_first [OF s] obtain pre post where
    h: "ps = pre @ p # post" "eligible V p" "planner_coords p = Some pc"
      "d = calculate_distance cur pc"
      "\<forall>q \<in> set pre. eligible V q \<longrightarrow> d < distance_from cur q"
    by auto
  from nearest_scan_lower_bound [OF s]
  have "\<forall>q \<in> set post. eligible V q \<longrightarrow> d \<le> distance_from cur q"
    using h(1) by simp
  with h show "\<exists>pre post. ps = pre @ p # post \<and> eligible V p \<and> planner_coords p = Some pc
           \<and> d = calculate_distance cur pc
           \<and> (\<forall>q \<in> set pre. eligible V q \<longrightarrow> d < distance_from cur q)
           \<and> (\<forall>q \<in> set post. eligible V q \<longrightarrow> d \<le> distance_from cur q)"
    by blast
next
  assume "nearest_scan (st_visited_ids st) (st_current_position st) cands None = None"
  then show "nn_loop cands dur vis st = st" by (rule nn_loop_exhausted)
next
  assume "nearest_scan (st_visited_ids st) (st_current_position st) cands None
          = Some (p', pc', d')
        \<and> st_time_used st + (estimate_walking_time d' + of_int vis) > of_int dur"
  then show "nn_loop cands dur vis st = st" by (blast intro: nn_loop_over_budget)
next
  assume "nearest_scan (st_visited_ids st) (st_current_position st) cands None
          = Some (p', pc', d')
        \<and> st_time_used st + (estimate_walking_time d' + of_int vis) \<le> of_int dur"
  then show "nn_loop cands dur vis st = nn_loop cands dur vis (commit_stop vis p' pc' d' st)"
    by (blast intro: nn_loop_commit)
qed

text \<open>Three candidates on the equator: one half a turn away, two at the start.\<close>

definition far_poi :: poi where
  "far_poi =
     \<lparr>poi_id = ''far'', poi_name = ''Antimeridian'',
      geo = Some \<lparr>lat = Some 0, lng = Some 180\<rparr>,
      vibe_tags = None, facts = None, visual_cues = None, source_reliability = None\<rparr>"

definition near_poi :: poi where
  "near_poi =
     \<lparr>poi_id = ''near'', poi_name = ''Origin'',
      geo = Some \<lparr>lat = Some 0, lng = Some 0\<rparr>,
      vibe_tags = None, facts = None, visual_cues = None, source_reliability = None\<rparr>"

definition twin_poi :: poi where
  "twin_poi =
     \<lparr>poi_id = ''twin'', poi_name = ''Origin again'',
      geo = Some \<lparr>lat = Some 0, lng = Some 0\<rparr>,
      vibe_tags = None, facts = None, visual_cues = None, source_reliability = None\<rparr>"

lemma example_scan:
  "nearest_scan {} (0, 0) [far_poi, near_poi, twin_poi] None = Some (near_poi, (0, 0), 0)"
  by (simp add: nearest_scan.simps planner_coords_def far_poi_def near_poi_def twin_poi_def
      calculate_distance_half_turn_east calculate_distance_self)

theorem nearest_neighbor_selection_witness:
  "nearest_scan {} (0, 0) [far_poi, near_poi, twin_poi] None = Some (near_poi, (0, 0), 0)
   \<and> nn_loop [far_poi, near_poi, twin_poi] 3 5 (initial_state (0, 0)) = initial_state (0, 0)
   \<and> (\<exists>pre post. [far_poi, near_poi, twin_poi] = pre @ near_poi # post
         \<and> (\<forall>q \<in> set pre. eligible {} q \<longrightarrow> 0 < distance_from (0, 0) q))"
  using nearest_neighbor_selection
    [where V = "{}" and cur = "(0, 0)" and ps = "[far_poi, near_poi, twin_poi]"
       and p = near_poi and pc = "(0, 0)" and d = 0
       and st = "initial_state (0, 0)" and cands = "[far_poi, near_poi, twin_poi]"
       and p' = near_poi and pc' = "(0, 0)" and d' = 0 and vis = 5 and dur = 3]
    example_scan
  by (simp add: initial_state_def estimate_walking_time_def) blast

subsection \<open>The return leg\<close>

lemma round_half_even_ge_floor: "\<lfloor>x\<rfloor> \<le> round_half_even x"
  by (simp add: round_half_even_def Let_def)

lemma py_round_pos:
  assumes "1 \<le> x"
  shows "0 < py_round x n"
proof -
  have "(1 :: real) \<le> 10 ^ n" by simp
  with assms have "1 * 1 \<le> x * 10 ^ n" by (intro mult_mono) simp_all
  then have "1 \<le> \<lfloor>x * 10 ^ n\<rfloor>" by (simp add: le_floor_iff)
  with round_half_even_ge_floor [of "x * 10 ^ n"]
  have "0 < round_half_even (x * 10 ^ n)" by linarith
  then show ?thesis by (simp add: py_round_def)
qed

lemma plan_route_with_preferences_result:
  assumes "plan_route_with_preferences Scorer_imported start cands dur prof vis ret sw
           = Inr r"
  shows "\<exists>ints w st.
           profile_interests prof = Inr ints
         \<and> w = (case sw of None \<Rightarrow> DEFAULT_WEIGHTS | Some x \<Rightarrow> x)
         \<and> pref_loop ints w cands dur vis (initial_pref_state start) = Inr st
         \<and> route_result.truncate r = build_result start dur vis ret st
         \<and> user_profile r = prof \<and> poi_scores r = st_poi_scores st"
  using assms
  by (auto simp add: plan_route_with_preferences_def Let_def route_result.truncate_def
      route_result.extend_def pref_result.fields_def split: sum.splits)

text \<open>
  Claim C3 (as amended). After the loop, when a return is requested and the route is
  not empty, the distance and walking time from the last position back to the start
  are added to the totals if and only if \<^verbatim>\<open>time_used\<close> plus that walking time is
  within the budget. In both cases \<^verbatim>\<open>return_distance_km\<close> reports the computed
  return distance, rounded to two decimals. It is 0 when no return was requested or
  no stop was made. Both planners build their result this way.
\<close>

theorem return_leg_accounting:
  fixes st :: "'a plan_state_scheme"
  shows
  "(ret \<and> st_route st \<noteq> []
      \<and> st_time_used st
          + estimate_walking_time (calculate_distance (st_current_position st) start)
        \<le> of_int dur \<longrightarrow>
      time_remaining (build_result start dur vis ret st)
        = of_int dur - (st_time_used st
            + estimate_walking_time (calculate_distance (st_current_position st) start))
    \<and> total_time_minutes (build_result start dur vis ret st)
        = py_round (st_time_used st
            + estimate_walking_time (calculate_distance (st_current_position st) start)) 1
    \<and> total_distance_km (build_result start dur vis ret st)
        = py_round (st_total_distance st
            + calculate_distance (st_current_position st) start) 2
    \<and> return_distance_km (build_result start dur vis ret st)
        = py_round (calculate_distance (st_current_position st) start) 2)
   \<and> (ret \<and> st_route st \<noteq> []
      \<and> st_time_used st
          + estimate_walking_time (calculate_distance (st_current_position st) start)
        > of_int dur \<longrightarrow>
      time_remaining (build_result start dur vis ret st) = of_int dur - st_time_used st
    \<and> total_time_minutes (build_result start dur vis ret st)
        = py_round (st_time_used st) 1
    \<and> total_distance_km (build_result start dur vis ret st)
        = py_round (st_total_distance st) 2
    \<and> return_distance_km (build_result start dur vis ret st)
        = py_round (calculate_distance (st_current_position st) start) 2)
   \<and> (\<not> (ret \<and> st_route st \<noteq> []) \<longrightarrow>
      time_remaining (build_result start dur vis ret st) = of_int dur - st_time_used st
    \<and> total_time_minutes (build_result start dur vis ret st)
        = py_round (st_time_used st) 1
    \<and> total_distance_km (build_result start dur vis ret st)
        = py_round (st_total_distance st) 2
    \<and> return_distance_km (build_result start dur vis ret st) = 0)
   \<and> plan_route start cands dur vis ret
        = build_result start dur vis ret (nn_loop cands dur vis (initial_state start))
   \<and> (plan_route_with_preferences Scorer_imported start cands dur prof vis ret sw = Inr r
        \<longrightarrow> (\<exists>ints w pst.
               pref_loop ints w cands dur vis (initial_pref_state start) = Inr pst
             \<and> route_result.truncate r = build_result start dur vis ret pst))"
proof (intro conjI impI)
  assume "plan_route_with_preferences Scorer_imported start cands dur prof vis ret sw = Inr r"
  from plan_route_with_preferences_result [OF this]
  show "\<exists>ints w pst.
               pref_loop ints w cands dur vis (initial_pref_state start) = Inr pst
             \<and> route_result.truncate r = build_result start dur vis ret pst"
    by blast
qed (auto simp add: build_result_def return_leg_def Let_def plan_route_def py_round_0)

lemma far_poi_route:
  assumes "76452 * pi + 5 \<le> real_of_int dur"
  shows "nn_loop [far_poi] dur 5 (initial_state (0, 0))
         = commit_stop 5 far_poi (0, 180) (6371 * pi) (initial_state (0, 0))"
proof -
  have s1: "nearest_scan (st_visited_ids (initial_state (0, 0)))
              (st_current_position (initial_state (0, 0))) [far_poi] None
            = Some (far_poi, (0, 180), 6371 * pi)"
    by (simp add: initial_state_def nearest_scan.simps planner_coords_def far_poi_def
        calculate_distance_half_turn_east)
  have t1: "st_time_used (initial_state (0, 0))
              + (estimate_walking_time (6371 * pi) + of_int 5) \<le> of_int dur"
    using assms by (simp add: initial_state_def estimate_walking_time_def
        WALKING_SPEED_KMH_def)
  have s2: "nearest_scan
              (st_visited_ids (commit_stop 5 far_poi (0, 180) (6371 * pi) (initial_state (0, 0))))
              (st_current_position
                 (commit_stop 5 far_poi (0, 180) (6371 * pi) (initial_state (0, 0))))
              [far_poi] None = None"
    by (simp add: commit_stop_def nearest_scan.simps)
  show ?thesis
    using nn_loop_commit [OF s1 t1] nn_loop_exhausted [OF s2] by simp
qed

lemma far_poi_plan:
  assumes "76452 * pi + 5 \<le> real_of_int dur"
  shows "plan_route (0, 0) [far_poi] dur 5 ret
         = build_result (0, 0) dur 5 ret
             (commit_stop 5 far_poi (0, 180) (6371 * pi) (initial_state (0, 0)))"
  by (simp only: plan_route_def far_poi_route [OF assms])

theorem return_leg_accounting_witness:
  "time_remaining (plan_route (0, 0) [far_poi] 1000000 5 True)
     = 1000000 - (152904 * pi + 5)
   \<and> total_distance_km (plan_route (0, 0) [far_poi] 1000000 5 True)
     = py_round (12742 * pi) 2
   \<and> return_distance_km (plan_route (0, 0) [far_poi] 1000000 5 True)
     = py_round (6371 * pi) 2
   \<and> return_distance_km (plan_route (0, 0) [far_poi] 1000000 5 False) = 0"
proof -
  have d: "76452 * pi + 5 \<le> real_of_int 1000000"
    using pi_less_4 by simp
  have f: "152904 * pi + 5 \<le> 1000000"
    using pi_less_4 by simp
  show ?thesis
    using return_leg_accounting
        [where st = "commit_stop 5 far_poi (0, 180) (6371 * pi) (initial_state (0, 0))"
           and start = "(0, 0)" and dur = 1000000 and vis = 5 and ret = True,
         THEN conjunct1]
      return_leg_accounting
        [where st = "commit_stop 5 far_poi (0, 180) (6371 * pi) (initial_state (0, 0))"
           and start = "(0, 0)" and dur = 1000000 and vis = 5 and ret = False,
         THEN conjunct2, THEN conjunct2, THEN conjunct1]
      f
    by (simp add: far_poi_plan [OF d] commit_stop_def initial_state_def
        estimate_walking_time_def WALKING_SPEED_KMH_def calculate_distance_half_turn_west)
qed

text \<open>
  The claim as stated fails where the return leg does not fit: a stop half a turn
  away is reached within the budget, walking back is not, and the totals leave the
  leg out, yet \<^verbatim>\<open>return_distance_km\<close> is the rounded return distance, not 0.
\<close>

theorem return_distance_reported_counterexample:
  "pois_visited (plan_route (0, 0) [far_poi] 400000 5 True) = 1
   \<and> time_remaining (plan_route (0, 0) [far_poi] 400000 5 True)
       = 400000 - (76452 * pi + 5)
   \<and> total_distance_km (plan_route (0, 0) [far_poi] 400000 5 True)
       = py_round (6371 * pi) 2
   \<and> return_distance_km (plan_route (0, 0) [far_poi] 400000 5 True)
       = py_round (6371 * pi) 2
   \<and> return_distance_km (plan_route (0, 0) [far_poi] 400000 5 True) \<noteq> 0"
proof -
  have d: "76452 * pi + 5 \<le> real_of_int 400000"
    using pi_less_4 by simp
  have f: "\<not> 152904 * pi + 5 \<le> 400000"
    using pi_ge_3 by simp
  have p: "0 < py_round (6371 * pi) 2"
    using pi_ge_3 by (intro py_round_pos) simp
  show ?thesis
    using f p
    by (simp add: far_poi_plan [OF d] build_result_def return_leg_def commit_stop_def
        initial_state_def estimate_walking_time_def WALKING_SPEED_KMH_def
        calculate_distance_half_turn_west Let_def)
qed

subsection \<open>Ranking\<close>

lemma USER_PROFILES_casual_tourist:
  "USER_PROFILES ''casual_tourist'' =
     Some \<lparr>interests = [''history'', ''architecture'', ''scenic'', ''culture'', ''picturesque''],
           description = ''Balanced mix of popular tourist attractions''\<rparr>"
  by (simp add: USER_PROFILES_def USER_PROFILES_items_def)

lemma profile_interests_total: "\<exists>ints. profile_interests prof = Inr ints"
  by (cases "USER_PROFILES prof")
     (simp_all add: profile_interests_def USER_PROFILES_casual_tourist)

lemma profile_interests_unknown:
  assumes "prof \<notin> dom USER_PROFILES"
  shows "profile_interests prof
         = Inr [''history'', ''architecture'', ''scenic'', ''culture'', ''picturesque'']"
proof -
  from assms have "USER_PROFILES prof = None" by (simp add: domIff)
  then show ?thesis by (simp add: profile_interests_def USER_PROFILES_casual_tourist)
qed

lemma profile_interests_casual_tourist:
  "profile_interests ''casual_tourist''
   = Inr [''history'', ''architecture'', ''scenic'', ''culture'', ''picturesque'']"
  by (simp add: profile_interests_def USER_PROFILES_casual_tourist)

text \<open>The dictionary \<^verbatim>\<open>score_poi\<close> returns for a candidate whose coordinates are
  \<open>pc\<close>.\<close>

definition scored_at ::
  "poi \<Rightarrow> coord \<Rightarrow> string list \<Rightarrow> coord \<Rightarrow> weights option \<Rightarrow> scored_poi" where
  "scored_at p pc ints cur weights_arg =
     (let w = (case weights_arg of None \<Rightarrow> DEFAULT_WEIGHTS | Some w' \<Rightarrow> w');
          distance = calculate_distance cur pc;
          im = calculate_interest_match p ints;
          pop = calculate_popularity_score p;
          pen = calculate_distance_penalty distance 2
      in \<lparr>scored_of = p, score = alpha w * im + beta w * pop - delta w * pen,
          components = \<lparr>interest_match = im, popularity = pop,
                         distance_km = distance, distance_penalty = pen\<rparr>\<rparr>)"

lemma score_poi_with_coords:
  "planner_coords p = Some pc \<Longrightarrow> score_poi p ints cur w = Inr (scored_at p pc ints cur w)"
  by (auto simp add: planner_coords_def score_poi_def poi_coords_def scored_at_def Let_def
      split: option.splits)

lemma score_poi_lat_without_lng:
  assumes "\<not> rank_skips p" "planner_coords p = None"
  shows "score_poi p ints cur w = Inl (KeyError ''lng'')"
  using assms
  by (auto simp add: rank_skips_def planner_coords_def score_poi_def poi_coords_def Let_def
      split: option.splits)

lemma score_poi_scored_of:
  "score_poi p ints cur w = Inr s \<Longrightarrow> scored_of s = p"
  by (auto simp add: score_poi_def Let_def split: sum.splits)

lemma planner_coords_not_skipped:
  "planner_coords p = Some pc \<Longrightarrow> \<not> rank_skips p"
  by (auto simp add: planner_coords_def rank_skips_def split: option.splits)

text \<open>A candidate list in which every \<^verbatim>\<open>geo\<close> with a \<^verbatim>\<open>lat\<close> has a \<^verbatim>\<open>lng\<close> too.\<close>

definition lng_where_lat :: "poi list \<Rightarrow> bool" where
  "lng_where_lat cands = list_all (\<lambda>p. rank_skips p \<or> planner_coords p \<noteq> None) cands"

lemma score_all_ok:
  assumes "lng_where_lat cands"
  shows "\<exists>scored. score_all ints pos w cands = Inr scored
           \<and> map scored_of scored = filter (\<lambda>p. \<not> rank_skips p) cands
           \<and> list_all (\<lambda>s. score_poi (scored_of s) ints pos w = Inr s) scored"
  using assms
proof (induction cands)
  case Nil
  show ?case by simp
next
  case (Cons p ps)
  from Cons.prems have "lng_where_lat ps" by (simp add: lng_where_lat_def)
  from Cons.IH [OF this] obtain scored where
    h: "score_all ints pos w ps = Inr scored"
      "map scored_of scored = filter (\<lambda>p. \<not> rank_skips p) ps"
      "list_all (\<lambda>s. score_poi (scored_of s) ints pos w = Inr s) scored"
    by blast
  show ?case
  proof (cases "rank_skips p")
    case True
    with h show ?thesis by simp
  next
    case False
    with Cons.prems obtain pc where pc: "planner_coords p = Some pc"
      by (auto simp add: lng_where_lat_def)
    define s where "s = scored_at p pc ints pos w"
    have sp: "score_poi p ints pos w = Inr s"
      unfolding s_def using pc by (rule score_poi_with_coords)
    then have "scored_of s = p" by (rule score_poi_scored_of)
    with False h sp have
      "score_all ints pos w (p # ps) = Inr (s # scored)
       \<and> map scored_of (s # scored) = filter (\<lambda>p. \<not> rank_skips p) (p # ps)
       \<and> list_all (\<lambda>s. score_poi (scored_of s) ints pos w = Inr s) (s # scored)"
      by simp
    then show ?thesis by blast
  qed
qed

lemma score_all_raises:
  assumes "\<not> lng_where_lat cands"
  shows "score_all ints pos w cands = Inl (KeyError ''lng'')"
  using assms
proof (induction cands)
  case Nil
  then show ?case by (simp add: lng_where_lat_def)
next
  case (Cons p ps)
  show ?case
  proof (cases "rank_skips p")
    case True
    with Cons.prems have "\<not> lng_where_lat ps" by (simp add: lng_where_lat_def)
    from Cons.IH [OF this] True show ?thesis by simp
  next
    case False
    show ?thesis
    proof (cases "planner_coords p")
      case None
      from score_poi_lat_without_lng [OF False None] False show ?thesis by simp
    next
      case (Some pc)
      with Cons.prems have "\<not> lng_where_lat ps" by (simp add: lng_where_lat_def)
      from Cons.IH [OF this] False score_poi_with_coords [OF Some] show ?thesis by simp
    qed
  qed
qed

lemma sort_by_score_reverse_sorted:
  "sorted_wrt (\<lambda>a b. score b \<le> score a) (sort_by_score_reverse xs)"
proof -
  have "sorted (map (\<lambda>x. - score x) (sort_key (\<lambda>x. - score x) xs))"
    by (rule sorted_sort_key)
  then show ?thesis by (simp add: sort_by_score_reverse_def sorted_map)
qed

lemma sort_by_score_reverse_mset: "mset (sort_by_score_reverse xs) = mset xs"
  by (simp add: sort_by_score_reverse_def)

lemma sort_by_score_reverse_stable:
  "filter (\<lambda>s. score s = k) (sort_by_score_reverse xs) = filter (\<lambda>s. score s = k) xs"
proof -
  have "filter (\<lambda>s. - score s = - k) (sort_key (\<lambda>x. - score x) xs)
        = filter (\<lambda>s. - score s = - k) xs"
    by (rule sort_key_stable)
  then show ?thesis by (simp add: sort_by_score_reverse_def)
qed

lemma slice_to_length: "0 \<le> n \<Longrightarrow> int (length (slice_to xs n)) \<le> n"
  by (simp add: slice_to_def)


lemma slice_to_negative:
  "n < 0 \<Longrightarrow> length (slice_to xs n) = length xs - nat (- n)"
  by (auto simp add: slice_to_def)

text \<open>
  Claim C4 (as amended). For a candidate list in which every \<^verbatim>\<open>geo\<close> that has a
  \<^verbatim>\<open>lat\<close> also has a \<^verbatim>\<open>lng\<close>, \<^verbatim>\<open>rank_pois\<close> returns: it scores, in input order,
  exactly the candidates that have coordinates, each with \<^verbatim>\<open>score_poi\<close>, and sorts
  them into descending order of score, candidates of equal score staying in input
  order. Without \<^verbatim>\<open>top_n\<close> all of them are returned. With \<^verbatim>\<open>top_n = n\<close> the result
  is the slice \<^verbatim>\<open>[:n]\<close> of that list: its first \<open>n\<close> elements, so at most \<open>n\<close>, when
  \<open>n\<close> is not negative, and all but its last \<open>- n\<close> elements when \<open>n\<close> is negative.
\<close>

theorem rank_pois_sorted:
  assumes "lng_where_lat cands"
  shows "\<exists>ints scored full.
           profile_interests prof = Inr ints
         \<and> score_all ints pos w cands = Inr scored
         \<and> map scored_of scored = filter (\<lambda>p. \<not> rank_skips p) cands
         \<and> list_all (\<lambda>s. score_poi (scored_of s) ints pos w = Inr s) scored
         \<and> rank_pois cands prof pos w None = Inr full
         \<and> mset full = mset scored
         \<and> sorted_wrt (\<lambda>a b. score b \<le> score a) full
         \<and> (\<forall>k. filter (\<lambda>s. score s = k) full = filter (\<lambda>s. score s = k) scored)
         \<and> (\<forall>n. rank_pois cands prof pos w (Some n) = Inr (slice_to full n))
         \<and> (\<forall>n. 0 \<le> n \<longrightarrow>
               slice_to full n = take (nat n) full \<and> int (length (slice_to full n)) \<le> n)
         \<and> (\<forall>n. n < 0 \<longrightarrow> length (slice_to full n) = length full - nat (- n))"
proof -
  obtain ints where i: "profile_interests prof = Inr ints"
    using profile_interests_total [of prof] by blast
  from score_all_ok [OF assms, of ints pos w] obtain scored where
    h: "score_all ints pos w cands = Inr scored"
      "map scored_of scored = filter (\<lambda>p. \<not> rank_skips p) cands"
      "list_all (\<lambda>s. score_poi (scored_of s) ints pos w = Inr s) scored"
    by blast
  define full where "full = sort_by_score_reverse scored"
  have r0: "rank_pois cands prof pos w None = Inr full"
    by (simp add: rank_pois_def i h(1) full_def)
  have rn: "\<forall>n. rank_pois cands prof pos w (Some n) = Inr (slice_to full n)"
    by (simp add: rank_pois_def i h(1) full_def)
  have m: "mset full = mset scored"
    unfolding full_def by (rule sort_by_score_reverse_mset)
  have so: "sorted_wrt (\<lambda>a b. score b \<le> score a) full"
    unfolding full_def by (rule sort_by_score_reverse_sorted)
  have st: "\<forall>k. filter (\<lambda>s. score s = k) full = filter (\<lambda>s. score s = k) scored"
    unfolding full_def by (simp add: sort_by_score_reverse_stable)
  have t: "\<forall>n. 0 \<le> n \<longrightarrow>
               slice_to full n = take (nat n) full \<and> int (length (slice_to full n)) \<le> n"
    by (auto simp add: slice_to_def)
  have ng: "\<forall>n. n < 0 \<longrightarrow> length (slice_to full n) = length full - nat (- n)"
    by (simp add: slice_to_negative)
  from i h r0 m so st rn t ng show ?thesis by blast
qed

lemma far_penalty: "min (6371 * pi / 2) 1 = (1 :: real)"
  using pi_ge_3 by simp

lemma example_scores:
  "score_all [''history'', ''architecture'', ''scenic'', ''culture'', ''picturesque'']
     (0, 0) None [far_poi, near_poi, twin_poi]
   = Inr [scored_at far_poi (0, 180)
            [''history'', ''architecture'', ''scenic'', ''culture'', ''picturesque'']
            (0, 0) None,
          scored_at near_poi (0, 0)
            [''history'', ''architecture'', ''scenic'', ''culture'', ''picturesque'']
            (0, 0) None,
          scored_at twin_poi (0, 0)
            [''history'', ''architecture'', ''scenic'', ''culture'', ''picturesque'']
            (0, 0) None]"
proof -
  have "planner_coords far_poi = Some (0, 180)" "planner_coords near_poi = Some (0, 0)"
    "planner_coords twin_poi = Some (0, 0)"
    by (simp_all add: planner_coords_def far_poi_def near_poi_def twin_poi_def)
  then show ?thesis
    by (simp add: score_poi_with_coords planner_coords_not_skipped)
qed

lemma example_score_values:
  "score (scored_at far_poi (0, 180) ints (0, 0) None) = 1 / 20"
  "score (scored_at near_poi (0, 0) ints (0, 0) None) = 3 / 20"
  "score (scored_at twin_poi (0, 0) ints (0, 0) None) = 3 / 20"
  by (simp_all add: scored_at_def DEFAULT_WEIGHTS_def calculate_interest_match_def
      calculate_popularity_score_def calculate_distance_penalty_def present_and_truthy_def
      far_poi_def near_poi_def twin_poi_def calculate_distance_half_turn_east
      calculate_distance_self far_penalty)

lemma example_ranking:
  "rank_pois [far_poi, near_poi, twin_poi] ''casual_tourist'' (0, 0) None top_n =
     Inr ((case top_n of None \<Rightarrow> (\<lambda>xs. xs) | Some n \<Rightarrow> (\<lambda>xs. slice_to xs n))
       [scored_at near_poi (0, 0)
          [''history'', ''architecture'', ''scenic'', ''culture'', ''picturesque'']
          (0, 0) None,
        scored_at twin_poi (0, 0)
          [''history'', ''architecture'', ''scenic'', ''culture'', ''picturesque'']
          (0, 0) None,
        scored_at far_poi (0, 180)
          [''history'', ''architecture'', ''scenic'', ''culture'', ''picturesque'']
          (0, 0) None])"
  by (cases top_n)
     (simp_all del: score_all.simps
        add: rank_pois_def profile_interests_casual_tourist example_scores
        sort_by_score_reverse_def example_score_values)

theorem rank_pois_sorted_witness:
  "lng_where_lat [far_poi, near_poi, twin_poi]
   \<and> map_sum id (map (\<lambda>s. (poi_id (scored_of s), score s)))
       (rank_pois [far_poi, near_poi, twin_poi] ''casual_tourist'' (0, 0) None (Some 2))
     = Inr [(''near'', 3 / 20), (''twin'', 3 / 20)]
   \<and> map_sum id (map (\<lambda>s. (poi_id (scored_of s), score s)))
       (rank_pois [far_poi, near_poi, twin_poi] ''casual_tourist'' (0, 0) None None)
     = Inr [(''near'', 3 / 20), (''twin'', 3 / 20), (''far'', 1 / 20)]"
proof -
  have h: "lng_where_lat [far_poi, near_poi, twin_poi]"
    by (simp add: lng_where_lat_def planner_coords_def rank_skips_def
        far_poi_def near_poi_def twin_poi_def)
  from rank_pois_sorted [OF h, of "''casual_tourist''" "(0, 0)" None]
  obtain full where
    f: "rank_pois [far_poi, near_poi, twin_poi] ''casual_tourist'' (0, 0) None None
          = Inr full"
      "\<forall>n. rank_pois [far_poi, near_poi, twin_poi] ''casual_tourist'' (0, 0) None (Some n)
          = Inr (slice_to full n)"
    by blast
  from f(1) have full:
    "full = [scored_at near_poi (0, 0)
               [''history'', ''architecture'', ''scenic'', ''culture'', ''picturesque'']
               (0, 0) None,
             scored_at twin_poi (0, 0)
               [''history'', ''architecture'', ''scenic'', ''culture'', ''picturesque'']
               (0, 0) None,
             scored_at far_poi (0, 180)
               [''history'', ''architecture'', ''scenic'', ''culture'', ''picturesque'']
               (0, 0) None]"
    by (simp add: example_ranking [of None])
  have ids: "poi_id (scored_of (scored_at p pc ints cur w)) = poi_id p" for p pc ints cur w
    by (simp add: scored_at_def Let_def)
  have names: "poi_id far_poi = ''far''" "poi_id near_poi = ''near''"
    "poi_id twin_poi = ''twin''"
    by (simp_all add: far_poi_def near_poi_def twin_poi_def)
  show ?thesis
    using h by (simp add: f full slice_to_def example_score_values ids names)
qed

definition lat_only_poi :: poi where
  "lat_only_poi =
     \<lparr>poi_id = ''half'', poi_name = ''Latitude only'',
      geo = Some \<lparr>lat = Some 0, lng = None\<rparr>,
      vibe_tags = None, facts = None, visual_cues = None, source_reliability = None\<rparr>"

text \<open>
  The claim as stated fails in two places. A candidate with a \<^verbatim>\<open>lat\<close> and no
  \<^verbatim>\<open>lng\<close> is not left out: the call raises \<^verbatim>\<open>KeyError\<close>. And a negative \<^verbatim>\<open>top_n\<close>
  does not bound the length: with \<^verbatim>\<open>top_n = -1\<close> and two candidates, one is
  returned.
\<close>

theorem rank_pois_counterexample:
  "rank_pois [lat_only_poi] ''casual_tourist'' (0, 0) None None = Inl (KeyError ''lng'')
   \<and> map_sum id length
       (rank_pois [near_poi, twin_poi] ''casual_tourist'' (0, 0) None (Some (- 1)))
     = Inr 1
   \<and> \<not> (1 :: int) \<le> - 1"
proof -
  have a: "\<not> lng_where_lat [lat_only_poi]"
    by (simp add: lng_where_lat_def planner_coords_def rank_skips_def lat_only_poi_def)
  have b: "lng_where_lat [near_poi, twin_poi]"
    by (simp add: lng_where_lat_def planner_coords_def rank_skips_def
        near_poi_def twin_poi_def)
  from score_all_ok [OF b] obtain scored where
    s: "score_all [''history'', ''architecture'', ''scenic'', ''culture'', ''picturesque'']
          (0, 0) None [near_poi, twin_poi] = Inr scored"
      "map scored_of scored = filter (\<lambda>p. \<not> rank_skips p) [near_poi, twin_poi]"
    by blast
  from s(2) have "length scored = 2"
    using length_map [of scored_of scored]
    by (simp add: rank_skips_def near_poi_def twin_poi_def)
  then have "length (slice_to (sort_by_score_reverse scored) (- 1)) = 1"
    by (simp add: slice_to_def sort_by_score_reverse_def)
  then show ?thesis
    by (simp del: score_all.simps
        add: rank_pois_def profile_interests_casual_tourist score_all_raises [OF a] s(1))
qed

subsection \<open>The preference-scored planner returns whenever the scorer is imported\<close>

lemma best_scan_never_raises: "\<exists>b. best_scan ints w V cur ps best = Inr b"
proof (induction ps arbitrary: best)
  case Nil
  show ?case by simp
next
  case (Cons q qs)
  show ?case
  proof (cases "poi_id q \<in> V")
    case True
    then show ?thesis using Cons.IH [of best] by simp
  next
    case False
    show ?thesis
    proof (cases "planner_coords q")
      case None
      then show ?thesis using False Cons.IH [of best] by simp
    next
      case (Some pc)
      define s where "s = scored_at q pc ints cur (Some w)"
      have sp: "score_poi q ints cur (Some w) = Inr s"
        unfolding s_def using Some by (rule score_poi_with_coords)
      show ?thesis
        using False Some sp Cons.IH [of best]
          Cons.IH [of "Some (q, pc, score s, distance_km (components s))"]
        by simp
    qed
  qed
qed

lemma pref_step_never_raises: "\<exists>r. pref_step ints w cands dur vis st = Inr r"
proof -
  obtain b where
    "best_scan ints w (st_visited_ids st) (st_current_position st) cands None = Inr b"
    using best_scan_never_raises by blast
  then show ?thesis
    by (cases b) (auto simp add: pref_step_def Let_def)
qed

lemma pref_loop_never_raises: "\<exists>st'. pref_loop ints w cands dur vis st = Inr st'"
proof (induction ints w cands dur vis st rule: pref_loop.induct)
  case (1 ints w cands dur vis st)
  obtain r where r: "pref_step ints w cands dur vis st = Inr r"
    using pref_step_never_raises by blast
  show ?case
  proof (cases r)
    case None
    with r show ?thesis by (simp add: pref_loop.simps [of ints w cands dur vis st])
  next
    case (Some st')
    with r "1.IH" [of r st'] show ?thesis
      by (simp add: pref_loop.simps [of ints w cands dur vis st])
  qed
qed

lemma plan_route_with_preferences_returns:
  "\<exists>r. plan_route_with_preferences Scorer_imported start cands dur prof vis ret sw = Inr r"
proof -
  obtain ints where i: "profile_interests prof = Inr ints"
    using profile_interests_total by blast
  define w where "w = (case sw of None \<Rightarrow> DEFAULT_WEIGHTS | Some x \<Rightarrow> x)"
  obtain st where "pref_loop ints w cands dur vis (initial_pref_state start) = Inr st"
    using pref_loop_never_raises by blast
  then show ?thesis
    by (simp add: plan_route_with_preferences_def i w_def [symmetric])
qed



subsection \<open>Unknown profile names\<close>

lemma profile_interests_fallback:
  assumes "prof \<notin> dom USER_PROFILES"
  shows "profile_interests prof = profile_interests ''casual_tourist''"
  using profile_interests_unknown [OF assms] profile_interests_casual_tourist by simp

text \<open>
  Claim C8. A profile name that is not a key of \<^verbatim>\<open>USER_PROFILES\<close> gets the interest
  list of \<^verbatim>\<open>casual_tourist\<close>. \<^verbatim>\<open>rank_pois\<close> returns what it returns for
  \<^verbatim>\<open>casual_tourist\<close>; the preference-scored planner returns a result, the one for
  \<^verbatim>\<open>casual_tourist\<close> with the given name in \<^verbatim>\<open>user_profile\<close>.
\<close>

theorem unknown_profile_falls_back:
  assumes "prof \<notin> dom USER_PROFILES"
  shows "profile_interests prof
           = Inr [''history'', ''architecture'', ''scenic'', ''culture'', ''picturesque'']
       \<and> rank_pois cands prof pos w n = rank_pois cands ''casual_tourist'' pos w n
       \<and> (\<exists>r. plan_route_with_preferences Scorer_imported start cands dur
                 ''casual_tourist'' vis ret sw = Inr r
             \<and> plan_route_with_preferences Scorer_imported start cands dur prof vis ret sw
                 = Inr (r\<lparr>user_profile := prof\<rparr>))"
proof -
  note f = profile_interests_fallback [OF assms]
  have a: "rank_pois cands prof pos w n = rank_pois cands ''casual_tourist'' pos w n"
    by (simp add: rank_pois_def f)
  obtain r where
    r: "plan_route_with_preferences Scorer_imported start cands dur
          ''casual_tourist'' vis ret sw = Inr r"
    using plan_route_with_preferences_returns by blast
  then have "plan_route_with_preferences Scorer_imported start cands dur prof vis ret sw
             = Inr (r\<lparr>user_profile := prof\<rparr>)"
    by (auto simp add: plan_route_with_preferences_def f Let_def route_result.extend_def
        pref_result.fields_def split: sum.splits)
  with a r profile_interests_unknown [OF assms] show ?thesis by blast
qed

theorem unknown_profile_falls_back_witness:
  "''foodie'' \<notin> dom USER_PROFILES
   \<and> profile_interests ''foodie''
       = Inr [''history'', ''architecture'', ''scenic'', ''culture'', ''picturesque'']
   \<and> rank_pois [richmond_castle, greyfriars_tower] ''foodie'' market_place None (Some 1)
       = rank_pois [richmond_castle, greyfriars_tower] ''casual_tourist'' market_place
           None (Some 1)
   \<and> (\<exists>r. plan_route_with_preferences Scorer_imported market_place
             [richmond_castle, greyfriars_tower] 45 ''foodie'' 5 False None = Inr r)"
proof -
  have h: "''foodie'' \<notin> dom USER_PROFILES"
    by (simp add: domIff USER_PROFILES_def USER_PROFILES_items_def)
  from unknown_profile_falls_back [OF h,
      where cands = "[richmond_castle, greyfriars_tower]" and pos = market_place
        and w = None and n = "Some 1" and start = market_place and dur = 45 and vis = 5
        and ret = False and sw = None] h
  show ?thesis by blast
qed

subsection \<open>A candidate with a latitude and no longitude\<close>

text \<open>Every stop of a route has both coordinates.\<close>

definition stops_have_coords :: "route_stop list \<Rightarrow> bool" where
  "stops_have_coords stops = list_all (\<lambda>s. planner_coords (stop_poi s) \<noteq> None) stops"

lemma nn_step_stops_have_coords:
  assumes "nn_step cands dur vis st = Some st'" "stops_have_coords (st_route st)"
  shows "stops_have_coords (st_route st')"
proof -
  from nn_step_Some [OF assms(1)] obtain p pc d where
    s: "nearest_scan (st_visited_ids st) (st_current_position st) cands None = Some (p, pc, d)"
    and r: "st_route st' = st_route st @
              [\<lparr>stop_poi = p, distance_from_previous_km = d,
                stop_walking_time_minutes = estimate_walking_time d\<rparr>]"
    by auto
  from nearest_scan_Some [OF s] have "planner_coords p = Some pc" by simp
  with assms(2) show ?thesis by (simp add: stops_have_coords_def r)
qed

lemma nn_loop_stops_have_coords:
  "stops_have_coords (st_route st)
   \<Longrightarrow> stops_have_coords (st_route (nn_loop cands dur vis st))"
proof (induction cands dur vis st rule: nn_loop.induct)
  case (1 cands dur vis st)
  show ?case
  proof (cases "nn_step cands dur vis st")
    case None
    then show ?thesis using "1.prems" by (simp add: nn_loop.simps [of cands dur vis st])
  next
    case (Some st')
    from nn_step_stops_have_coords [OF Some "1.prems"] "1.IH" [OF Some] Some
    show ?thesis by (simp add: nn_loop.simps [of cands dur vis st])
  qed
qed

lemma pref_step_stops_have_coords:
  assumes "pref_step ints w cands dur vis st = Inr (Some st')"
    "stops_have_coords (st_route st)"
  shows "stops_have_coords (st_route st')"
proof -
  from assms(1) obtain p pc sc d where
    s: "best_scan ints w (st_visited_ids st) (st_current_position st) cands None
          = Inr (Some (p, pc, sc, d))"
    and r: "st_route st' = st_route st @
              [\<lparr>stop_poi = p, distance_from_previous_km = d,
                stop_walking_time_minutes = estimate_walking_time d\<rparr>]"
    by (auto simp add: pref_step_def Let_def split: sum.splits option.splits if_splits)
  from best_scan_Some [OF s] have "planner_coords p = Some pc" by simp
  with assms(2) show ?thesis by (simp add: stops_have_coords_def r)
qed

lemma pref_loop_stops_have_coords:
  "stops_have_coords (st_route st) \<Longrightarrow> pref_loop ints w cands dur vis st = Inr st'
   \<Longrightarrow> stops_have_coords (st_route st')"
proof (induction ints w cands dur vis st rule: pref_loop.induct)
  case (1 ints w cands dur vis st)
  obtain r where r: "pref_step ints w cands dur vis st = Inr r"
    using pref_step_never_raises by blast
  show ?case
  proof (cases r)
    case None
    with r "1.prems" show ?thesis
      by (simp add: pref_loop.simps [of ints w cands dur vis st])
  next
    case (Some st1)
    with r have s: "pref_step ints w cands dur vis st = Inr (Some st1)" by simp
    from "1.prems"(2) s have "pref_loop ints w cands dur vis st1 = Inr st'"
      by (simp add: pref_loop.simps [of ints w cands dur vis st])
    from "1.IH" [OF r Some pref_step_stops_have_coords [OF s "1.prems"(1)] this]
    show ?thesis .
  qed
qed

lemma build_result_route: "route (build_result start dur vis ret st) = st_route st"
  by (simp add: build_result_def Let_def split: prod.splits)

lemma plan_route_stops_have_coords:
  "stops_have_coords (route (plan_route start cands dur vis ret))"
proof -
  have "stops_have_coords (st_route (initial_state start))"
    by (simp add: stops_have_coords_def initial_state_def)
  then have "stops_have_coords (st_route (nn_loop cands dur vis (initial_state start)))"
    by (rule nn_loop_stops_have_coords)
  then show ?thesis by (simp add: plan_route_def build_result_route)
qed

lemma plan_route_with_preferences_stops_have_coords:
  assumes "plan_route_with_preferences Scorer_imported start cands dur prof vis ret sw
           = Inr r"
  shows "stops_have_coords (route r)"
proof -
  from plan_route_with_preferences_result [OF assms] obtain ints w st where
    l: "pref_loop ints w cands dur vis (initial_pref_state start) = Inr st"
    and t: "route_result.truncate r = build_result start dur vis ret st"
    by blast
  have "stops_have_coords (st_route (initial_pref_state start))"
    by (simp add: stops_have_coords_def initial_pref_state_def)
  from pref_loop_stops_have_coords [OF this l] have "stops_have_coords (st_route st)" .
  moreover have "route r = route (route_result.truncate r)"
    by (simp add: route_result.truncate_def)
  ultimately show ?thesis by (simp add: t build_result_route)
qed

lemma not_a_stop:
  assumes "stops_have_coords stops" "planner_coords p = None"
  shows "p \<notin> set (map stop_poi stops)"
  using assms by (auto simp add: stops_have_coords_def list_all_iff)

text \<open>
  Claim C10. A candidate whose \<^verbatim>\<open>geo\<close> has a \<^verbatim>\<open>lat\<close> and no \<^verbatim>\<open>lng\<close> passes the
  filter of \<^verbatim>\<open>rank_pois\<close>, which tests \<^verbatim>\<open>lat\<close> only; \<^verbatim>\<open>score_poi\<close> then reads
  \<^verbatim>\<open>poi['geo']['lng']\<close> and raises \<^verbatim>\<open>KeyError\<close>, and so does \<^verbatim>\<open>rank_pois\<close> on
  every candidate list that holds such a candidate. Both planners test \<^verbatim>\<open>lng\<close> as
  well: they return, and the candidate is not a stop of their routes.
\<close>

theorem rank_pois_lat_without_lng:
  assumes "p \<in> set cands" "geo p = Some g" "lat g = Some la" "lng g = None"
  shows "\<not> rank_skips p
       \<and> score_poi p ints pos w = Inl (KeyError ''lng'')
       \<and> rank_pois cands prof pos w n = Inl (KeyError ''lng'')
       \<and> planner_coords p = None
       \<and> p \<notin> set (map stop_poi (route (plan_route start cands dur vis ret)))
       \<and> (\<exists>r. plan_route_with_preferences Scorer_imported start cands dur prof vis ret sw
                 = Inr r
             \<and> p \<notin> set (map stop_poi (route r)))"
proof -
  have k: "\<not> rank_skips p" using assms(2,3) by (simp add: rank_skips_def)
  have c: "planner_coords p = None" using assms(2-4) by (simp add: planner_coords_def)
  have s: "score_poi p ints pos w = Inl (KeyError ''lng'')"
    using k c by (rule score_poi_lat_without_lng)
  have "\<not> lng_where_lat cands"
    using assms(1) k c by (auto simp add: lng_where_lat_def list_all_iff)
  then have "score_all i pos w cands = Inl (KeyError ''lng'')" for i
    by (rule score_all_raises)
  moreover obtain i where "profile_interests prof = Inr i"
    using profile_interests_total by blast
  ultimately have r: "rank_pois cands prof pos w n = Inl (KeyError ''lng'')"
    by (simp add: rank_pois_def)
  have n: "p \<notin> set (map stop_poi (route (plan_route start cands dur vis ret)))"
    using plan_route_stops_have_coords c by (rule not_a_stop)
  obtain res where
    res: "plan_route_with_preferences Scorer_imported start cands dur prof vis ret sw
          = Inr res"
    using plan_route_with_preferences_returns by blast
  from plan_route_with_preferences_stops_have_coords [OF res] c
  have "p \<notin> set (map stop_poi (route res))" by (rule not_a_stop)
  with k s r c n res show ?thesis by blast
qed

theorem rank_pois_lat_without_lng_witness:
  "rank_pois [near_poi, lat_only_poi] ''history_lover'' (0, 0) None None
     = Inl (KeyError ''lng'')
   \<and> lat_only_poi \<notin> set (map stop_poi
        (route (plan_route (0, 0) [near_poi, lat_only_poi] 60 5 False)))
   \<and> (\<exists>r. plan_route_with_preferences Scorer_imported (0, 0) [near_poi, lat_only_poi] 60
             ''history_lover'' 5 False None = Inr r
         \<and> lat_only_poi \<notin> set (map stop_poi (route r)))"
proof -
  have "lat_only_poi \<in> set [near_poi, lat_only_poi]" by simp
  moreover have "geo lat_only_poi = Some \<lparr>lat = Some 0, lng = None\<rparr>"
    by (simp add: lat_only_poi_def)
  moreover have "lat \<lparr>lat = Some 0, lng = None\<rparr> = Some (0 :: real)"
    "lng \<lparr>lat = Some (0 :: real), lng = None\<rparr> = None"
    by simp_all
  ultimately show ?thesis
    using rank_pois_lat_without_lng
      [where p = lat_only_poi and cands = "[near_poi, lat_only_poi]"
         and g = "\<lparr>lat = Some 0, lng = None\<rparr>" and la = 0
         and prof = "''history_lover''" and pos = "(0, 0)" and w = None and n = None
         and start = "(0, 0)" and dur = 60 and vis = 5 and ret = False and sw = None]
    by blast
qed

end
